theory Spec2Isabelle
  imports Main "HOL-Library.AList" "HOL-Library.Multiset"
begin

section \<open>Strings, integers and their conversions\<close>

text \<open>
  The Python \<open>str\<close> values handled by \<open>bot.py\<close> are modelled as \<^typ>\<open>string\<close>, a
  \<^typ>\<open>char\<close> standing for the code point of the same number (U+0000 to U+00FF). On these
  code points the character classes below are those of CPython 3.11: \<open>\d\<close> of the
  \<open>re\<close> module and \<open>int()\<close> accept the ten ASCII digits, \<open>\s\<close> and \<open>str.strip\<close> accept
  the twelve characters of \<open>is_space\<close>, and \<open>str.lower\<close> maps A-Z and the capital
  letters U+00C0 to U+00DE (the multiplication sign U+00D7 apart) to the letter 32 places
  further on. Text with code points above U+00FF (Cyrillic commands, the long s that
  the case-insensitive class \<open>[smhd]\<close> also accepts) is outside the model.
\<close>

definition is_digit :: "char \<Rightarrow> bool" where
  "is_digit c \<longleftrightarrow> c \<in> set ''0123456789''"

definition is_space :: "char \<Rightarrow> bool" where
  "is_space c \<longleftrightarrow> (of_char c :: nat) \<in> set [9, 10, 11, 12, 13, 28, 29, 30, 31, 32, 133, 160]"

definition lower_char :: "char \<Rightarrow> char" where
  "lower_char c =
     (let n = (of_char c :: nat)
      in if (65 \<le> n \<and> n \<le> 90) \<or> (192 \<le> n \<and> n \<le> 222 \<and> n \<noteq> 215)
         then char_of (n + 32) else c)"

definition lower :: "string \<Rightarrow> string" where
  "lower s = map lower_char s"

definition strip :: "string \<Rightarrow> string" where
  "strip s = rev (dropWhile is_space (rev (dropWhile is_space s)))"

fun join :: "string \<Rightarrow> string list \<Rightarrow> string" where
  "join sep [] = []"
| "join sep [x] = x"
| "join sep (x # y # ys) = x @ sep @ join sep (y # ys)"

definition digit_val :: "char \<Rightarrow> int" where
  "digit_val c = (of_char c :: int) - 48"

definition int_of_digits :: "string \<Rightarrow> int" where
  "int_of_digits ds = foldl (\<lambda>a c. 10 * a + digit_val c) 0 ds"

definition digit_char :: "nat \<Rightarrow> char" where
  "digit_char d = ''0123456789'' ! d"

fun str_nat :: "nat \<Rightarrow> string" where
  "str_nat n = (if n < 10 then [digit_char n] else str_nat (n div 10) @ [digit_char (n mod 10)])"

declare str_nat.simps [simp del]

definition str_int :: "int \<Rightarrow> string" where
  "str_int i = (if i < 0 then CHR ''-'' # str_nat (nat (- i)) else str_nat (nat i))"

text \<open>
  What the program can raise. \<open>ValueError\<close> comes from \<open>int()\<close> on more than
  \<open>MAX_STR_DIGITS\<close> digits (the default of \<open>sys.int_info.default_max_str_digits\<close>),
  \<open>OverflowError\<close> from \<open>timedelta(seconds=...)\<close> beyond 999999999 days and from
  \<open>datetime + timedelta\<close> beyond the year 9999, \<open>AttributeError\<close> from an attribute
  read on \<open>None\<close>, \<open>DeliveryError\<close> from a failed call of the chat transport.
\<close>

datatype pyerr = ValueError | OverflowError | AttributeError | DeliveryError

definition MAX_STR_DIGITS :: nat where
  "MAX_STR_DIGITS = 4300"

section \<open>Durations\<close>

text \<open>
  A \<open>timedelta\<close> is a whole number of microseconds, a \<open>datetime\<close> (naive, local) the
  number of microseconds since 0001-01-01 00:00, the smallest datetime of Python.
\<close>

type_synonym timedelta = int
type_synonym datetime = int

definition timedelta_seconds :: "int \<Rightarrow> pyerr + timedelta" where
  \<comment> \<open>\<open>timedelta(seconds=n)\<close>: the day count must have magnitude at most 999999999\<close>
  "timedelta_seconds n =
     (if n div 86400 < - 999999999 \<or> 999999999 < n div 86400 then Inl OverflowError
      else Inr (n * 1000000))"

text \<open>
  \<open>_DURATION_RE.findall(spec)\<close> for \<open>(\d+)\s*([smhd])\<close> with \<open>re.IGNORECASE\<close>: the
  matches from left to right, not overlapping. A match starts at a digit, takes the whole
  run of digits, skips the whole run of whitespace and needs a unit letter next; giving
  back digits or whitespace cannot help, since the character after them is then a digit
  or a whitespace character. Where no match starts, the search moves on one character.
\<close>

definition is_unit :: "char \<Rightarrow> bool" where
  "is_unit c \<longleftrightarrow> c \<in> set ''smhdSMHD''"

function duration_findall :: "string \<Rightarrow> (string \<times> char) list" where
  "duration_findall [] = []"
| "duration_findall (c # cs) =
     (if is_digit c then
        (case dropWhile is_space (dropWhile is_digit cs) of
           [] \<Rightarrow> duration_findall cs
         | u # rest \<Rightarrow>
             if is_unit u then (c # takeWhile is_digit cs, u) # duration_findall rest
             else duration_findall cs)
      else duration_findall cs)"
  by pat_completeness auto

termination
proof (relation "measure length")
  fix c :: char and cs u rest
  assume "dropWhile is_space (dropWhile is_digit cs) = u # rest"
  moreover have "length (dropWhile is_space (dropWhile is_digit cs)) \<le> length cs"
    by (meson length_dropWhile_le order_trans)
  ultimately show "(rest, c # cs) \<in> measure length" by simp
qed simp_all

text \<open>The loop of \<open>parse_duration\<close> over the matches, \<open>total_seconds\<close> being its accumulator.\<close>

fun sum_matches :: "int \<Rightarrow> (string \<times> char) list \<Rightarrow> pyerr + int" where
  "sum_matches total_seconds [] = Inr total_seconds"
| "sum_matches total_seconds ((v, u) # ms) =
     (if MAX_STR_DIGITS < length v then Inl ValueError
      else
        let amount = int_of_digits v; l = lower_char u
        in sum_matches
             (if l = CHR ''s'' then total_seconds + amount
              else if l = CHR ''m'' then total_seconds + amount * 60
              else if l = CHR ''h'' then total_seconds + amount * 3600
              else if l = CHR ''d'' then total_seconds + amount * 86400
              else total_seconds) ms)"

definition parse_duration :: "string \<Rightarrow> pyerr + timedelta option" where
  "parse_duration spec =
     (let matches = duration_findall spec
      in if matches = [] then Inr None
         else case sum_matches 0 matches of
                Inl e \<Rightarrow> Inl e
              | Inr total_seconds \<Rightarrow>
                  if total_seconds \<le> 0 then Inr None
                  else map_sum id Some (timedelta_seconds total_seconds))"

text \<open>
  \<open>humanize_delta\<close>. \<open>int(delta.total_seconds())\<close> truncates towards zero; the float
  in between is exact below \<open>2^53\<close> microseconds (285 years), and the model truncates
  exactly everywhere.
\<close>

definition total_seconds_int :: "timedelta \<Rightarrow> int" where
  "total_seconds_int delta = (if 0 \<le> delta then delta div 1000000 else - ((- delta) div 1000000))"

fun humanize_parts :: "int \<Rightarrow> (int \<times> string) list \<Rightarrow> string list" where
  "humanize_parts seconds [] = []"
| "humanize_parts seconds ((unit_seconds, suffix) # units) =
     (let v = seconds div unit_seconds; seconds' = seconds mod unit_seconds
      in (if v \<noteq> 0 then [str_int v @ suffix] else []) @ humanize_parts seconds' units)"

definition humanize_delta :: "timedelta \<Rightarrow> string" where
  "humanize_delta delta =
     (let parts = humanize_parts (total_seconds_int delta)
                    [(86400, ''d''), (3600, ''h''), (60, ''m''), (1, ''s'')]
      in if parts \<noteq> [] then join '' '' parts else ''0s'')"

subsection \<open>The specification's reading of durations\<close>

text \<open>
  Section 4.1 of the specification: a pair contributes its integer times the seconds of
  its unit, \<open>s\<close> 1, \<open>m\<close> 60, \<open>h\<close> 3600, \<open>d\<close> 86400, the unit in either case.
\<close>

definition spec_unit_seconds :: "char \<Rightarrow> int" where
  "spec_unit_seconds u =
     (if u \<in> set ''sS'' then 1 else if u \<in> set ''mM'' then 60
      else if u \<in> set ''hH'' then 3600 else if u \<in> set ''dD'' then 86400 else 0)"

definition spec_duration_sum :: "string \<Rightarrow> int" where
  "spec_duration_sum spec =
     sum_list (map (\<lambda>(v, u). int_of_digits v * spec_unit_seconds u) (duration_findall spec))"

text \<open>
  Section 4.1 on \<open>humanize\<close>, for a duration of \<open>n\<close> whole seconds: the non-zero
  components among days, hours, minutes and seconds, largest first, joined by spaces; a
  zero duration is \<open>0s\<close>.
\<close>

definition spec_humanize :: "int \<Rightarrow> string" where
  "spec_humanize n =
     (if n = 0 then ''0s''
      else join '' '' (map (\<lambda>(v, suffix). str_int v @ suffix)
             (filter (\<lambda>(v, suffix). v \<noteq> 0)
                [(n div 86400, ''d''), (n mod 86400 div 3600, ''h''),
                 (n mod 3600 div 60, ''m''), (n mod 60, ''s'')])))"

text \<open>
  A duration string as the specification composes it: (integer, unit) pairs written one
  after another, each the decimal numeral of the integer followed by its unit. It is valid
  when it has a pair, every unit is one of \<open>s\<close>, \<open>m\<close>, \<open>h\<close>, \<open>d\<close> in either case, and the
  pairs sum to a positive number of seconds that a \<open>timedelta\<close> holds.
\<close>

definition spec_pairs_string :: "(nat \<times> char) list \<Rightarrow> string" where
  "spec_pairs_string ps = concat (map (\<lambda>(n, u). str_nat n @ [u]) ps)"

definition spec_pairs_total :: "(nat \<times> char) list \<Rightarrow> int" where
  "spec_pairs_total ps = sum_list (map (\<lambda>(n, u). int n * spec_unit_seconds u) ps)"

definition spec_valid_duration :: "(nat \<times> char) list \<Rightarrow> bool" where
  "spec_valid_duration ps \<longleftrightarrow>
     ps \<noteq> [] \<and> list_all (\<lambda>(n, u). is_unit u) ps \<and>
     0 < spec_pairs_total ps \<and> spec_pairs_total ps \<le> 86399999999999"

section \<open>Absolute datetimes\<close>

text \<open>
  \<open>datetime.strptime(value, fmt)\<close> for the two formats of \<open>_DATETIME_FORMATS\<close>. CPython
  turns the format into a regular expression, here
  \<open>(\d\d\d\d)-(1[0-2]|0[1-9]|[1-9])-(3[0-1]|[1-2]\d|0[1-9]|[1-9]| [1-9])\<close>, then \<open>\s+\<close>
  or \<open>T\<close>, then \<open>(2[0-3]|[0-1]\d|\d):([0-5]\d|\d)\<close>, compiled with \<open>re.IGNORECASE\<close>,
  and matches it at the start of \<open>value\<close>. A field is a list of its alternatives in the
  order the expression tries them, each with the rest of the input; the first complete
  match in that order is the match, and \<open>strptime\<close> raises \<open>ValueError\<close> when there is
  none, when input is left over after it, or when the date does not exist.
\<close>

fun two_of :: "string \<Rightarrow> string \<Rightarrow> string \<Rightarrow> (int \<times> string) list" where
  "two_of A B (a # b # rest) =
     (if a \<in> set A \<and> b \<in> set B then [(digit_val a * 10 + digit_val b, rest)] else [])"
| "two_of A B rest = []"

fun one_of :: "string \<Rightarrow> string \<Rightarrow> (int \<times> string) list" where
  "one_of A (a # rest) = (if a \<in> set A then [(digit_val a, rest)] else [])"
| "one_of A [] = []"

fun re_Y :: "string \<Rightarrow> (int \<times> string) list" where
  "re_Y (a # b # c # d # rest) =
     (if is_digit a \<and> is_digit b \<and> is_digit c \<and> is_digit d
      then [(int_of_digits [a, b, c, d], rest)] else [])"
| "re_Y rest = []"

definition re_m :: "string \<Rightarrow> (int \<times> string) list" where
  "re_m s = two_of ''1'' ''012'' s @ two_of ''0'' ''123456789'' s @ one_of ''123456789'' s"

definition re_d :: "string \<Rightarrow> (int \<times> string) list" where
  "re_d s = two_of ''3'' ''01'' s @ two_of ''12'' ''0123456789'' s @ two_of ''0'' ''123456789'' s
            @ one_of ''123456789'' s
            @ (case s of a # rest \<Rightarrow> if a = CHR '' '' then one_of ''123456789'' rest else []
               | [] \<Rightarrow> [])"

definition re_H :: "string \<Rightarrow> (int \<times> string) list" where
  "re_H s = two_of ''2'' ''0123'' s @ two_of ''01'' ''0123456789'' s @ one_of ''0123456789'' s"

definition re_M :: "string \<Rightarrow> (int \<times> string) list" where
  "re_M s = two_of ''012345'' ''0123456789'' s @ one_of ''0123456789'' s"

definition lit :: "char \<Rightarrow> string \<Rightarrow> string list" where
  \<comment> \<open>a literal character of the format, matched without regard to case\<close>
  "lit c s = (case s of a # rest \<Rightarrow> if lower_char a = lower_char c then [rest] else []
              | [] \<Rightarrow> [])"

definition re_spaces :: "string \<Rightarrow> string list" where
  \<comment> \<open>\<open>\s+\<close>: the longest run of whitespace first, then one character less at a time\<close>
  "re_spaces s = map (\<lambda>k. drop k s) (rev [1 ..< Suc (length (takeWhile is_space s))])"

datatype datetime_format = Space_format | T_format

definition DATETIME_FORMATS :: "datetime_format list" where
  \<comment> \<open>\<open>("%Y-%m-%d %H:%M", "%Y-%m-%dT%H:%M")\<close>\<close>
  "DATETIME_FORMATS = [Space_format, T_format]"

definition format_matches ::
    "datetime_format \<Rightarrow> string \<Rightarrow> ((int \<times> int \<times> int \<times> int \<times> int) \<times> string) list" where
  "format_matches fmt s =
     [((Y, m, d, H, M), r).
        (Y, s1) \<leftarrow> re_Y s, s2 \<leftarrow> lit CHR ''-'' s1,
        (m, s3) \<leftarrow> re_m s2, s4 \<leftarrow> lit CHR ''-'' s3,
        (d, s5) \<leftarrow> re_d s4,
        s6 \<leftarrow> (case fmt of Space_format \<Rightarrow> re_spaces s5 | T_format \<Rightarrow> lit CHR ''T'' s5),
        (H, s7) \<leftarrow> re_H s6, s8 \<leftarrow> lit CHR '':'' s7,
        (M, r) \<leftarrow> re_M s8]"

definition is_leap :: "int \<Rightarrow> bool" where
  "is_leap y \<longleftrightarrow> y mod 4 = 0 \<and> (if y mod 100 = 0 then y mod 400 = 0 else True)"

definition days_in_month :: "int \<Rightarrow> int \<Rightarrow> int" where
  "days_in_month y m =
     (if m = 2 then (if is_leap y then 29 else 28)
      else if m \<in> set [4, 6, 9, 11] then 30 else 31)"

definition days_before_year :: "int \<Rightarrow> int" where
  "days_before_year y = (y - 1) * 365 + (y - 1) div 4 - (y - 1) div 100 + (y - 1) div 400"

definition days_before_month :: "int \<Rightarrow> int \<Rightarrow> int" where
  "days_before_month y m = sum_list (map (days_in_month y) [1 .. m - 1])"

definition datetime_of :: "int \<Rightarrow> int \<Rightarrow> int \<Rightarrow> int \<Rightarrow> int \<Rightarrow> datetime" where
  \<comment> \<open>\<open>datetime(year, month, day, hour, minute)\<close> on the model's time line\<close>
  "datetime_of Y m d H M =
     ((days_before_year Y + days_before_month Y m + d - 1) * 86400 + H * 3600 + M * 60) * 1000000"

definition strptime :: "string \<Rightarrow> datetime_format \<Rightarrow> datetime option" where
  \<comment> \<open>\<open>None\<close> stands for the \<open>ValueError\<close> that \<open>parse_datetime_spec\<close> catches\<close>
  "strptime v fmt =
     (case format_matches fmt v of
        [] \<Rightarrow> None
      | ((Y, m, d, H, M), r) # others \<Rightarrow>
          if r \<noteq> [] then None
          else if Y < 1 \<or> days_in_month Y m < d then None
          else Some (datetime_of Y m d H M))"

fun first_some :: "'a option list \<Rightarrow> 'a option" where
  "first_some [] = None"
| "first_some (None # xs) = first_some xs"
| "first_some (Some x # xs) = Some x"

definition parse_datetime_spec :: "string list \<Rightarrow> (datetime \<times> nat) option" where
  "parse_datetime_spec tokens =
     (case tokens of
        [] \<Rightarrow> None
      | t0 # ts \<Rightarrow>
          let candidates = (t0, 1) # (case ts of [] \<Rightarrow> [] | t1 # us \<Rightarrow> [(t0 @ '' '' @ t1, 2)])
          in first_some
               [map_option (\<lambda>dt. (dt, consumed)) (strptime v fmt).
                  (v, consumed) \<leftarrow> candidates, fmt \<leftarrow> DATETIME_FORMATS])"

definition MAX_DATETIME :: datetime where
  \<comment> \<open>\<open>datetime.max\<close>, 9999-12-31 23:59:59.999999\<close>
  "MAX_DATETIME = 3652059 * 86400 * 1000000 - 1"

definition datetime_add :: "datetime \<Rightarrow> timedelta \<Rightarrow> pyerr + datetime" where
  \<comment> \<open>\<open>datetime + timedelta\<close>\<close>
  "datetime_add dt td =
     (if dt + td < 0 \<or> MAX_DATETIME < dt + td then Inl OverflowError else Inr (dt + td))"

definition td_truthy :: "timedelta option \<Rightarrow> bool" where
  \<comment> \<open>the truth value of an \<open>Optional[timedelta]\<close>: \<open>None\<close> and \<open>timedelta(0)\<close> are false\<close>
  "td_truthy x = (case x of None \<Rightarrow> False | Some d \<Rightarrow> d \<noteq> 0)"

section \<open>Telegram objects and the bot's state\<close>

definition html_escape :: "string \<Rightarrow> string" where
  \<comment> \<open>\<open>html.escape(s)\<close> with its default \<open>quote=True\<close>\<close>
  "html_escape s = concat (map (\<lambda>c.
       if c = CHR ''&'' then ''&amp;''
       else if c = CHR ''<'' then ''&lt;''
       else if c = CHR ''>'' then ''&gt;''
       else if c = CHR 0x22 then ''&quot;''
       else if c = CHR 0x27 then ''&#x27;''
       else [c]) s)"

record user =
  username :: "string option"
  full_name :: string
  mention_html :: string

record replied_message =
  rm_from_user :: "user option"
  rm_message_id :: int

record message =
  chat_id :: int
  message_id :: int
  reply_to_message :: "replied_message option"

record tg_update =
  effective_message :: "message option"
  args :: "string list"

text \<open>
  What a handler reads from outside: \<open>datetime.now()\<close>, \<open>int(time.time() * 1000)\<close>, and the
  outcome of the one call to the Bot API that sends a message: the identifier of the
  message sent, or \<open>None\<close> when the call raises.
\<close>

record env =
  now_dt :: datetime
  time_ms :: int
  transport :: "int option"

record job_data =
  jd_chat_id :: int
  jd_mention :: "string option"
  jd_text :: string
  jd_reply_to :: "int option"
  jd_due_at :: datetime
  jd_repeat_interval :: "timedelta option"

datatype payload = SendReminder job_data | DeleteMessage int int

record job =
  j_name :: string
  j_data :: payload
  j_first :: timedelta
  j_interval :: "timedelta option"

text \<open>The record stored under \<open>chat_data["jobs"][job_id]\<close>; \<open>r_job\<close> is the handle of the job.\<close>

record reminder =
  r_job :: nat
  r_target :: "string option"
  r_text :: string
  r_due_at :: datetime
  r_repeat_interval :: "timedelta option"

datatype display = NoAddressee | Addressee string

record listing_line =
  ll_id :: string
  ll_target :: display
  ll_eta :: string
  ll_repeat :: "string option"
  ll_text :: string

text \<open>
  The messages the bot writes. The fixed Russian wording of each is not part of the model:
  a constructor stands for the wording and carries the values interpolated into it.
\<close>

datatype body =
    NeedTime | UsageShort | UsageLong | BadTime | PastDateTime | MissingRepeat | BadRepeat
  | NoQueue
  | Scheduled display string string string "string option"
  | Reminder "string option" string
  | NoActive
  | Listing "listing_line list"
  | SpecifyId "string list"
  | AllCancelled
  | NotFound
  | Cancelled string display

datatype outgoing = Reply int body | Notification int body "int option"

text \<open>
  \<open>job_queue\<close> is \<open>None\<close> when the application has no job queue, and otherwise maps the handle
  of every job that was scheduled and not removed by this program to the job; that the
  library retires a job scheduled with \<open>run_once\<close> after its run is not modelled, a handle
  is never given out twice. \<open>chat_data\<close> gives, per chat, the \<open>"jobs"\<close> dictionary in
  insertion order, \<open>None\<close> while the key is absent. \<open>sent\<close> and \<open>deleted\<close> log the calls
  to the Bot API that succeeded.
\<close>

record state =
  job_queue :: "(nat \<rightharpoonup> job) option"
  next_handle :: nat
  chat_data :: "int \<rightharpoonup> (string \<times> reminder) list"
  sent :: "outgoing list"
  deleted :: "(int \<times> int) list"

definition SECOND :: timedelta where
  "SECOND = 1000000"

definition DEFAULT_TEXT :: string where
  \<comment> \<open>stands for the Russian default text of a reminder, which has no special character\<close>
  "DEFAULT_TEXT = ''Reminder!''"

definition ALL_LABEL :: string where
  \<comment> \<open>stands for the Russian label of a reminder addressed to everybody\<close>
  "ALL_LABEL = ''everybody''"

definition REPEAT_KEYWORDS :: "string list" where
  \<comment> \<open>the two Latin members of \<open>_REPEAT_KEYWORDS\<close>; the Cyrillic two equal no string of the model\<close>
  "REPEAT_KEYWORDS = [''every'', ''repeat'']"

definition jobs_of :: "state \<Rightarrow> int \<Rightarrow> (string \<times> reminder) list" where
  \<comment> \<open>\<open>chat_data.get("jobs", {})\<close>\<close>
  "jobs_of s c = (case chat_data s c of None \<Rightarrow> [] | Some js \<Rightarrow> js)"

definition mutate_jobs ::
    "int \<Rightarrow> ((string \<times> reminder) list \<Rightarrow> (string \<times> reminder) list) \<Rightarrow> state \<Rightarrow> state" where
  \<comment> \<open>a change made to the dictionary that \<open>get("jobs", {})\<close> returned: lost when the key is absent\<close>
  "mutate_jobs c f s =
     (case chat_data s c of None \<Rightarrow> s
      | Some js \<Rightarrow> s\<lparr>chat_data := (chat_data s)(c \<mapsto> f js)\<rparr>)"

definition arm :: "job \<Rightarrow> state \<Rightarrow> nat \<times> state" where
  \<comment> \<open>\<open>run_once\<close> and \<open>run_repeating\<close> on an existing queue\<close>
  "arm j s =
     (next_handle s,
      s\<lparr>job_queue := map_option (\<lambda>q. q(next_handle s \<mapsto> j)) (job_queue s),
        next_handle := Suc (next_handle s)\<rparr>)"

definition schedule_removal :: "nat \<Rightarrow> state \<Rightarrow> state" where
  "schedule_removal h s = s\<lparr>job_queue := map_option (\<lambda>q. q(h := None)) (job_queue s)\<rparr>"

definition armed :: "state \<Rightarrow> nat \<Rightarrow> bool" where
  \<comment> \<open>the queue holds a job under the handle \<open>h\<close>\<close>
  "armed s h = (case job_queue s of None \<Rightarrow> False
                | Some q \<Rightarrow> (case q h of None \<Rightarrow> False | Some j \<Rightarrow> True))"

definition cleanup_job :: "int \<Rightarrow> int \<Rightarrow> int \<Rightarrow> job" where
  \<comment> \<open>\<open>run_once(delete_message_job, when=seconds, data=...)\<close>\<close>
  "cleanup_job c mid seconds =
     \<lparr>j_name = ''delete_message_job'', j_data = DeleteMessage c mid,
      j_first = seconds * SECOND, j_interval = None\<rparr>"

definition reply_only :: "env \<Rightarrow> message \<Rightarrow> body \<Rightarrow> state \<Rightarrow> state \<times> pyerr option" where
  \<comment> \<open>\<open>await message.reply_text(...)\<close> followed by \<open>return\<close>\<close>
  "reply_only e m b s =
     (case transport e of
        None \<Rightarrow> (s, Some DeliveryError)
      | Some mid \<Rightarrow> (s\<lparr>sent := sent s @ [Reply (chat_id m) b]\<rparr>, None))"

definition reply_and_cleanup ::
    "env \<Rightarrow> message \<Rightarrow> body \<Rightarrow> int \<Rightarrow> state \<Rightarrow> state \<times> pyerr option" where
  \<comment> \<open>\<open>await message.reply_html(...)\<close>, then the job that deletes the reply\<close>
  "reply_and_cleanup e m b seconds s =
     (case transport e of
        None \<Rightarrow> (s, Some DeliveryError)
      | Some mid \<Rightarrow>
          let s1 = s\<lparr>sent := sent s @ [Reply (chat_id m) b]\<rparr>
          in (case job_queue s1 of
                None \<Rightarrow> (s1, Some AttributeError)
              | Some q \<Rightarrow> (snd (arm (cleanup_job (chat_id m) mid seconds) s1), None)))"

definition target_display :: "string option \<Rightarrow> display" where
  \<comment> \<open>\<open>target or "..."\<close>\<close>
  "target_display t =
     (case t of None \<Rightarrow> NoAddressee | Some m \<Rightarrow> if m = [] then NoAddressee else Addressee m)"

definition startswith_at :: "string \<Rightarrow> bool" where
  "startswith_at s = (case s of [] \<Rightarrow> False | c # cs \<Rightarrow> c = CHR ''@'')"

definition format_target_mention :: "user option \<Rightarrow> string \<Rightarrow> string" where
  "format_target_mention u fallback =
     (case u of
        Some usr \<Rightarrow> mention_html usr
      | None \<Rightarrow>
          let cleaned = strip fallback
          in html_escape (if startswith_at cleaned then cleaned else CHR ''@'' # cleaned))"

definition normalize_target_label :: "string option \<Rightarrow> string option \<times> bool" where
  "normalize_target_label label =
     (case label of
        None \<Rightarrow> (None, False)
      | Some l \<Rightarrow>
          if l = [] then (None, False)
          else if lower (strip (dropWhile (\<lambda>c. c = CHR ''@'') l)) = ''all''
          then (Some ALL_LABEL, True)
          else (Some l, False))"

definition job_id_of :: "int \<Rightarrow> int \<Rightarrow> string" where
  \<comment> \<open>\<open>f"{chat_id}-{int(time.time() * 1000)}"\<close>\<close>
  "job_id_of c ms = str_int c @ ''-'' @ str_int ms"

section \<open>The job callbacks\<close>

definition send_reminder :: "env \<Rightarrow> nat \<Rightarrow> string \<Rightarrow> job_data \<Rightarrow> state \<Rightarrow> state \<times> pyerr option" where
  \<comment> \<open>the callback of the job with handle \<open>h\<close>, name \<open>name\<close> and data \<open>d\<close>\<close>
  "send_reminder e h name d s =
     (let mention = (case jd_mention d of None \<Rightarrow> None
                     | Some m \<Rightarrow> if m = [] then None else Some m);
          reminder_text = Reminder mention (html_escape (jd_text d))
      in case transport e of
           None \<Rightarrow> (s, Some DeliveryError)
         | Some mid \<Rightarrow>
             let s1 = s\<lparr>sent := sent s @ [Notification (jd_chat_id d) reminder_text (jd_reply_to d)]\<rparr>
             in if td_truthy (jd_repeat_interval d)
                then (case datetime_add (now_dt e) (the (jd_repeat_interval d)) of
                        Inl err \<Rightarrow> (s1, Some err)
                      | Inr due \<Rightarrow>
                          (s1\<lparr>job_queue := map_option
                                (\<lambda>q. case q h of
                                       None \<Rightarrow> q
                                     | Some j \<Rightarrow> q(h \<mapsto> j\<lparr>j_data := SendReminder (d\<lparr>jd_due_at := due\<rparr>)\<rparr>))
                                (job_queue s1)\<rparr>,
                           None))
                else (mutate_jobs (jd_chat_id d) (AList.delete name) s1, None))"

definition delete_message_job :: "env \<Rightarrow> int \<Rightarrow> int \<Rightarrow> state \<Rightarrow> state \<times> pyerr option" where
  "delete_message_job e c mid s =
     (if c = 0 \<or> mid = 0 then (s, None)
      else (case transport e of
              None \<Rightarrow> (s, None)
            | Some r \<Rightarrow> (s\<lparr>deleted := deleted s @ [(c, mid)]\<rparr>, None)))"

definition run_job :: "env \<Rightarrow> nat \<Rightarrow> state \<Rightarrow> state \<times> pyerr option" where
  \<comment> \<open>the queue runs the callback of the job with handle \<open>h\<close>\<close>
  "run_job e h s =
     (case job_queue s of
        None \<Rightarrow> (s, None)
      | Some q \<Rightarrow>
          (case q h of
             None \<Rightarrow> (s, None)
           | Some j \<Rightarrow>
               (case j_data j of
                  SendReminder d \<Rightarrow> send_reminder e h (j_name j) d s
                | DeleteMessage c mid \<Rightarrow> delete_message_job e c mid s)))"

section \<open>The command handlers\<close>

datatype stop = Say body | Raise pyerr

definition split_target ::
    "message \<Rightarrow> string list \<Rightarrow> stop + (user option \<times> string option \<times> string list)" where
  \<comment> \<open>who the reminder is for, and the arguments that follow the addressee\<close>
  "split_target m as =
     (case reply_to_message m of
        Some r \<Rightarrow>
          if as = [] then Inl (Say NeedTime)
          else (case rm_from_user r of
                  None \<Rightarrow> Inl (Raise AttributeError)
                | Some u \<Rightarrow>
                    Inr (Some u,
                         Some (case username u of
                                 None \<Rightarrow> full_name u
                               | Some n \<Rightarrow> if n = [] then full_name u else n),
                         as))
      | None \<Rightarrow>
          if as = [] then Inl (Say UsageShort)
          else (case parse_duration (hd as) of
                  Inl err \<Rightarrow> Inl (Raise err)
                | Inr tentative_delay \<Rightarrow>
                    if td_truthy tentative_delay then Inr (None, None, as)
                    else (case parse_datetime_spec as of
                            Some tentative_datetime \<Rightarrow> Inr (None, None, as)
                          | None \<Rightarrow>
                              if length as < 2 then Inl (Say UsageLong)
                              else Inr (None, Some (hd as), tl as))))"

definition parse_time ::
    "datetime \<Rightarrow> string list \<Rightarrow> stop + (datetime \<times> timedelta \<times> nat)" where
  \<comment> \<open>the due time, the delay until it, and the number of arguments read\<close>
  "parse_time now time_args =
     (case (if time_args = [] then Inr None else parse_duration (hd time_args)) of
        Inl err \<Rightarrow> Inl (Raise err)
      | Inr delay \<Rightarrow>
          if td_truthy delay
          then (case datetime_add now (the delay) of
                  Inl err \<Rightarrow> Inl (Raise err)
                | Inr due_at \<Rightarrow> Inr (due_at, the delay, 1))
          else (case parse_datetime_spec time_args of
                  None \<Rightarrow> Inl (Say BadTime)
                | Some (due_at, consumed) \<Rightarrow>
                    if due_at \<le> now then Inl (Say PastDateTime)
                    else Inr (due_at, due_at - now, consumed)))"

definition parse_repeat :: "string list \<Rightarrow> stop + (timedelta option \<times> string list)" where
  "parse_repeat remaining =
     (if remaining \<noteq> [] \<and> lower (hd remaining) \<in> set REPEAT_KEYWORDS
      then (if length remaining < 2 then Inl (Say MissingRepeat)
            else (case parse_duration (remaining ! 1) of
                    Inl err \<Rightarrow> Inl (Raise err)
                  | Inr repeat_interval \<Rightarrow>
                      if td_truthy repeat_interval then Inr (repeat_interval, drop 2 remaining)
                      else Inl (Say BadRepeat)))
      else Inr (None, remaining))"

record request =
  q_target_user :: "user option"
  q_target_label :: "string option"
  q_is_all_target :: bool
  q_due_at :: datetime
  q_delay :: timedelta
  q_repeat_interval :: "timedelta option"
  q_text :: string

definition read_time_and_text ::
    "datetime \<Rightarrow> user option \<Rightarrow> string option \<Rightarrow> string list \<Rightarrow> stop + request" where
  \<comment> \<open>\<open>remind\<close> from \<open>now = datetime.now()\<close> to \<open>normalize_target_label\<close>\<close>
  "read_time_and_text now target_user target_label time_args =
     (case parse_time now time_args of
        Inl st \<Rightarrow> Inl st
      | Inr (due_at, delay, consumed) \<Rightarrow>
          (case parse_repeat (drop consumed time_args) of
             Inl st \<Rightarrow> Inl st
           | Inr (repeat_interval, remaining) \<Rightarrow>
               let joined = strip (join '' '' remaining);
                   reminder_text = (if joined = [] then DEFAULT_TEXT else joined);
                   (label, is_all) = normalize_target_label target_label
               in Inr \<lparr>q_target_user = target_user, q_target_label = label,
                       q_is_all_target = is_all, q_due_at = due_at, q_delay = delay,
                       q_repeat_interval = repeat_interval, q_text = reminder_text\<rparr>))"

definition read_request :: "datetime \<Rightarrow> message \<Rightarrow> string list \<Rightarrow> stop + request" where
  \<comment> \<open>\<open>remind\<close> from the reading of its arguments to \<open>normalize_target_label\<close>\<close>
  "read_request now m as =
     (case split_target m as of
        Inl st \<Rightarrow> Inl st
      | Inr (target_user, target_label, time_args) \<Rightarrow>
          read_time_and_text now target_user target_label time_args)"

definition mention_of :: "request \<Rightarrow> string option" where
  "mention_of rq =
     (case q_target_label rq of
        None \<Rightarrow> None
      | Some l \<Rightarrow>
          if l = [] then None
          else if q_is_all_target rq then Some (html_escape l)
          else Some (format_target_mention (q_target_user rq) l))"

definition schedule :: "env \<Rightarrow> message \<Rightarrow> request \<Rightarrow> state \<Rightarrow> state \<times> pyerr option" where
  \<comment> \<open>\<open>remind\<close> from the choice of the identifier to its end, on an existing queue\<close>
  "schedule e m rq s =
     (let c = chat_id m;
          job_id = job_id_of c (time_ms e);
          mention = mention_of rq;
          data = \<lparr>jd_chat_id = c, jd_mention = mention, jd_text = q_text rq,
                  jd_reply_to = map_option rm_message_id (reply_to_message m),
                  jd_due_at = q_due_at rq, jd_repeat_interval = q_repeat_interval rq\<rparr>;
          (h, s1) = arm \<lparr>j_name = job_id, j_data = SendReminder data, j_first = q_delay rq,
                         j_interval = (if td_truthy (q_repeat_interval rq)
                                       then q_repeat_interval rq else None)\<rparr> s;
          s2 = s1\<lparr>chat_data := (chat_data s1)(c \<mapsto>
                  AList.update job_id
                    \<lparr>r_job = h, r_target = mention, r_text = q_text rq,
                     r_due_at = q_due_at rq, r_repeat_interval = q_repeat_interval rq\<rparr>
                    (jobs_of s1 c))\<rparr>
      in reply_and_cleanup e m
           (Scheduled (target_display mention) (humanize_delta (q_delay rq)) job_id
              (html_escape (q_text rq))
              (if td_truthy (q_repeat_interval rq)
               then Some (humanize_delta (the (q_repeat_interval rq))) else None))
           15 s2)"

definition remind :: "env \<Rightarrow> tg_update \<Rightarrow> state \<Rightarrow> state \<times> pyerr option" where
  "remind e u s =
     (case effective_message u of
        None \<Rightarrow> (s, None)
      | Some m \<Rightarrow>
          let s1 = (case job_queue s of
                      None \<Rightarrow> s
                    | Some q \<Rightarrow> snd (arm (cleanup_job (chat_id m) (message_id m) 10) s))
          in (case read_request (now_dt e) m (args u) of
                Inl (Say b) \<Rightarrow> reply_only e m b s1
              | Inl (Raise err) \<Rightarrow> (s1, Some err)
              | Inr rq \<Rightarrow>
                  (case job_queue s1 of
                     None \<Rightarrow> reply_only e m NoQueue s1
                   | Some q \<Rightarrow> schedule e m rq s1)))"

definition listing_of :: "datetime \<Rightarrow> string \<times> reminder \<Rightarrow> listing_line" where
  \<comment> \<open>one line of the listing, every interpolated value passed through \<open>html.escape\<close>\<close>
  "listing_of now entry =
     (case entry of (job_id, data) \<Rightarrow>
        let eta = max (r_due_at data - now) 0
        in \<lparr>ll_id = html_escape job_id,
            ll_target = (case target_display (r_target data) of
                           NoAddressee \<Rightarrow> NoAddressee
                         | Addressee t \<Rightarrow> Addressee (html_escape t)),
            ll_eta = html_escape (humanize_delta eta),
            ll_repeat = (if td_truthy (r_repeat_interval data)
                         then Some (html_escape (humanize_delta (the (r_repeat_interval data))))
                         else None),
            ll_text = html_escape (r_text data)\<rparr>)"

definition list_reminders :: "env \<Rightarrow> tg_update \<Rightarrow> state \<Rightarrow> state \<times> pyerr option" where
  "list_reminders e u s =
     (case effective_message u of
        None \<Rightarrow> (s, None)
      | Some m \<Rightarrow>
          let chat_jobs = jobs_of s (chat_id m)
          in if chat_jobs = [] then reply_only e m NoActive s
             else reply_and_cleanup e m (Listing (map (listing_of (now_dt e)) chat_jobs)) 10 s)"

definition cancel_all :: "env \<Rightarrow> message \<Rightarrow> state \<Rightarrow> state \<times> pyerr option" where
  \<comment> \<open>the branch of \<open>cancel\<close> for the identifier \<open>all\<close>\<close>
  "cancel_all e m s =
     (let chat_jobs = jobs_of s (chat_id m)
      in if chat_jobs = [] then reply_only e m NoActive s
         else let s1 = fold (\<lambda>(job_id, data). schedule_removal (r_job data)) chat_jobs s;
                  s2 = mutate_jobs (chat_id m) (\<lambda>js. []) s1
              in reply_and_cleanup e m AllCancelled 10 s2)"

definition cancel_one :: "env \<Rightarrow> message \<Rightarrow> string \<Rightarrow> state \<Rightarrow> state \<times> pyerr option" where
  \<comment> \<open>the branch of \<open>cancel\<close> for any other identifier\<close>
  "cancel_one e m job_id s =
     (let chat_jobs = jobs_of s (chat_id m);
          job_info = map_of chat_jobs job_id;
          s1 = mutate_jobs (chat_id m) (AList.delete job_id) s
      in case job_info of
           None \<Rightarrow> reply_only e m NotFound s1
         | Some info \<Rightarrow>
             reply_and_cleanup e m
               (Cancelled (html_escape job_id) (target_display (r_target info))) 10
               (schedule_removal (r_job info) s1))"

definition cancel :: "env \<Rightarrow> tg_update \<Rightarrow> state \<Rightarrow> state \<times> pyerr option" where
  "cancel e u s =
     (case effective_message u of
        None \<Rightarrow> (s, None)
      | Some m \<Rightarrow>
          let chat_jobs = jobs_of s (chat_id m);
              dispatch = (\<lambda>job_id. if lower job_id = ''all'' then cancel_all e m s
                                    else cancel_one e m job_id s)
          in if args u = []
             then (if chat_jobs = [] then reply_only e m NoActive s
                   else if length chat_jobs = 1 then dispatch (fst (hd chat_jobs))
                   else reply_and_cleanup e m (SpecifyId (map (html_escape \<circ> fst) chat_jobs)) 10 s)
             else dispatch (hd (args u)))"


text \<open>
  What \<open>remind\<close> leaves in a registry: every record of the chat \<open>c\<close> is stored under
  an identifier made for that chat, and holds a handle that the queue has given out.
\<close>

definition registry_ok :: "state \<Rightarrow> int \<Rightarrow> bool" where
  "registry_ok s c \<longleftrightarrow>
     (\<forall>(jid, r)\<in>set (jobs_of s c). (\<exists>ms. jid = job_id_of c ms) \<and> r_job r < next_handle s)"

section \<open>Properties of the duration functions\<close>

lemma findall_digits: "(v, u) \<in> set (duration_findall s) \<Longrightarrow> (\<forall>c\<in>set v. is_digit c) \<and> is_unit u"
proof (induction s rule: duration_findall.induct)
  case 1
  then show ?case by simp
next
  case (2 c cs)
  note mem = \<open>(v, u) \<in> set (duration_findall (c # cs))\<close>
  show ?case
  proof (cases "is_digit c")
    case False
    with mem have "(v, u) \<in> set (duration_findall cs)" by simp
    with 2(4)[OF False] show ?thesis .
  next
    case True
    show ?thesis
    proof (cases "dropWhile is_space (dropWhile is_digit cs)")
      case Nil
      with mem True have "(v, u) \<in> set (duration_findall cs)" by simp
      with 2(1)[OF True Nil] show ?thesis .
    next
      case (Cons x rest)
      show ?thesis
      proof (cases "is_unit x")
        case False
        with mem True Cons have "(v, u) \<in> set (duration_findall cs)" by simp
        with 2(3)[OF True Cons False] show ?thesis .
      next
        case isu: True
        from mem True Cons isu
        have "(v, u) = (c # takeWhile is_digit cs, x) \<or> (v, u) \<in> set (duration_findall rest)"
          by simp
        then show ?thesis
        proof
          assume "(v, u) = (c # takeWhile is_digit cs, x)"
          with True isu show ?thesis by (auto dest: set_takeWhileD)
        next
          assume "(v, u) \<in> set (duration_findall rest)"
          with 2(2)[OF True Cons isu] show ?thesis .
        qed
      qed
    qed
  qed
qed


lemma lower_char_units:
  "lower_char CHR ''s'' = CHR ''s''" "lower_char CHR ''S'' = CHR ''s''"
  "lower_char CHR ''m'' = CHR ''m''" "lower_char CHR ''M'' = CHR ''m''"
  "lower_char CHR ''h'' = CHR ''h''" "lower_char CHR ''H'' = CHR ''h''"
  "lower_char CHR ''d'' = CHR ''d''" "lower_char CHR ''D'' = CHR ''d''"
  by code_simp+

lemma sum_matches_step:
  assumes "is_unit u" "length v \<le> MAX_STR_DIGITS"
  shows "sum_matches t ((v, u) # ms) = sum_matches (t + int_of_digits v * spec_unit_seconds u) ms"
proof -
  from assms(1) consider "u = CHR ''s''" | "u = CHR ''S''" | "u = CHR ''m''" | "u = CHR ''M''"
    | "u = CHR ''h''" | "u = CHR ''H''" | "u = CHR ''d''" | "u = CHR ''D''"
    by (auto simp: is_unit_def)
  then show ?thesis
    using assms(2)
    by cases (simp_all add: lower_char_units spec_unit_seconds_def)
qed

lemma sum_matches_spec:
  "\<forall>(v, u)\<in>set ms. length v \<le> MAX_STR_DIGITS \<and> is_unit u \<Longrightarrow>
   sum_matches t ms = Inr (t + sum_list (map (\<lambda>(v, u). int_of_digits v * spec_unit_seconds u) ms))"
proof (induction ms arbitrary: t)
  case Nil
  show ?case by simp
next
  case (Cons m ms)
  obtain v u where m: "m = (v, u)" by (cases m)
  from Cons.prems m have u: "is_unit u" and l: "length v \<le> MAX_STR_DIGITS" by auto
  from Cons.prems have rest: "\<forall>(v, u)\<in>set ms. length v \<le> MAX_STR_DIGITS \<and> is_unit u" by simp
  have "sum_matches t (m # ms) = sum_matches (t + int_of_digits v * spec_unit_seconds u) ms"
    unfolding m by (rule sum_matches_step[OF u l])
  also have "\<dots> = Inr (t + int_of_digits v * spec_unit_seconds u
      + sum_list (map (\<lambda>(v, u). int_of_digits v * spec_unit_seconds u) ms))"
    by (rule Cons.IH[OF rest])
  finally show ?case by (simp add: m add.assoc)
qed

text \<open>
  Claim C5, as the code has it. For every string whose matched integers have at most 4300
  digits each and whose pairs sum to at most 86399999999999 seconds (999999999 days,
  23:59:59, the largest whole number of seconds a \<open>timedelta\<close> holds),
  \<open>parse_duration\<close> returns the duration equal to the sum over the matched pairs of
  the integer times the seconds of its unit, the unit in either case; and it returns
  \<open>None\<close> exactly when no pair matches or that sum is not positive.
\<close>

theorem parse_duration_sum:
  assumes digits: "\<forall>(v, u)\<in>set (duration_findall s). length v \<le> MAX_STR_DIGITS"
    and range: "spec_duration_sum s \<le> 86399999999999"
  shows "parse_duration s =
    Inr (if duration_findall s = [] \<or> spec_duration_sum s \<le> 0 then None
         else Some (1000000 * spec_duration_sum s))"
proof -
  have "\<forall>(v, u)\<in>set (duration_findall s). length v \<le> MAX_STR_DIGITS \<and> is_unit u"
    using digits findall_digits by fastforce
  then have sm: "sum_matches 0 (duration_findall s) = Inr (spec_duration_sum s)"
    by (simp add: sum_matches_spec spec_duration_sum_def)
  have td: "timedelta_seconds (spec_duration_sum s) = Inr (spec_duration_sum s * 1000000)"
    if "0 < spec_duration_sum s"
    using that range unfolding timedelta_seconds_def by (simp add: not_less) linarith
  show ?thesis
    unfolding parse_duration_def Let_def sm using td by (auto simp: not_le)
qed

theorem parse_duration_sum_witness:
  "spec_duration_sum ''1h20m'' = 4800 \<and> parse_duration ''1h20m'' = Inr (Some 4800000000)"
proof -
  have f: "duration_findall ''1h20m'' = [(''1'', CHR ''h''), (''20'', CHR ''m'')]"
    by code_simp
  have h1: "\<forall>(v, u)\<in>set (duration_findall ''1h20m''). length v \<le> MAX_STR_DIGITS"
    by (simp add: f MAX_STR_DIGITS_def)
  have s: "spec_duration_sum ''1h20m'' = 4800"
    by code_simp
  have h2: "spec_duration_sum ''1h20m'' \<le> 86399999999999"
    by (simp add: s)
  have p: "parse_duration ''1h20m'' = Inr (Some 4800000000)"
    using parse_duration_sum [OF h1 h2] unfolding f s by simp
  from s p show ?thesis by (intro conjI)
qed


text \<open>
  Claim C5 as stated, "for every input string", fails: the pairs of \<open>1000000000d\<close> sum
  to 86400000000000 seconds, which \<open>timedelta(seconds=...)\<close> refuses with
  \<open>OverflowError\<close>, so no duration is returned.
\<close>

theorem parse_duration_overflow:
  "spec_duration_sum ''1000000000d'' = 86400000000000 \<and>
   parse_duration ''1000000000d'' = Inl OverflowError"
  by code_simp

lemma sum_matches_Inr:
  "sum_matches t ms = Inr r \<Longrightarrow> \<forall>(v, u)\<in>set ms. is_unit u \<Longrightarrow>
   r = t + sum_list (map (\<lambda>(v, u). int_of_digits v * spec_unit_seconds u) ms)"
proof (induction ms arbitrary: t)
  case Nil
  then show ?case by simp
next
  case (Cons m ms)
  obtain v u where m: "m = (v, u)" by (cases m)
  from Cons.prems(2) m have u: "is_unit u" and rest: "\<forall>(v, u)\<in>set ms. is_unit u" by auto
  have l: "length v \<le> MAX_STR_DIGITS"
  proof (rule ccontr)
    assume "\<not> length v \<le> MAX_STR_DIGITS"
    with Cons.prems(1) show False by (simp add: m)
  qed
  from Cons.prems(1) have "sum_matches (t + int_of_digits v * spec_unit_seconds u) ms = Inr r"
    unfolding m sum_matches_step[OF u l] .
  from Cons.IH[OF this rest] show ?case by (simp add: m)
qed

lemma parse_duration_Some:
  assumes "parse_duration s = Inr (Some d)"
  shows "d = 1000000 * spec_duration_sum s \<and> 0 < spec_duration_sum s"
proof -
  have units: "\<forall>(v, u)\<in>set (duration_findall s). is_unit u"
    using findall_digits by fastforce
  from assms obtain total where sm: "sum_matches 0 (duration_findall s) = Inr total"
    and pos: "0 < total" and td: "timedelta_seconds total = Inr d"
    unfolding parse_duration_def Let_def
    by (auto split: if_splits sum.splits simp: map_sum_def)
  from sum_matches_Inr[OF sm units] have "total = spec_duration_sum s"
    by (simp add: spec_duration_sum_def)
  with pos td show ?thesis
    by (auto simp: timedelta_seconds_def split: if_splits)
qed


lemma parts_list:
  fixes a b c d :: int
  shows "(if a \<noteq> 0 then [str_int a @ ''d''] else []) @ (if b \<noteq> 0 then [str_int b @ ''h''] else []) @
    (if c \<noteq> 0 then [str_int c @ ''m''] else []) @ (if d \<noteq> 0 then [str_int d @ ''s''] else []) @ [] =
   map (\<lambda>(v, suffix). str_int v @ suffix)
     (filter (\<lambda>(v, suffix). v \<noteq> 0) [(a, ''d''), (b, ''h''), (c, ''m''), (d, ''s'')])"
  by simp

lemma humanize_parts_units:
  "humanize_parts n [(86400, ''d''), (3600, ''h''), (60, ''m''), (1, ''s'')] =
   map (\<lambda>(v, suffix). str_int v @ suffix)
     (filter (\<lambda>(v, suffix). v \<noteq> 0)
        [(n div 86400, ''d''), (n mod 86400 div 3600, ''h''),
         (n mod 3600 div 60, ''m''), (n mod 60, ''s'')])"
proof -
  have m1: "n mod 86400 mod 3600 = n mod 3600"
    by (rule mod_mod_cancel) simp
  have m2: "n mod 3600 mod 60 = n mod 60"
    by (rule mod_mod_cancel) simp
  have "humanize_parts n [(86400, ''d''), (3600, ''h''), (60, ''m''), (1, ''s'')] =
    (if n div 86400 \<noteq> 0 then [str_int (n div 86400) @ ''d''] else []) @
    (if n mod 86400 div 3600 \<noteq> 0 then [str_int (n mod 86400 div 3600) @ ''h''] else []) @
    (if n mod 3600 div 60 \<noteq> 0 then [str_int (n mod 3600 div 60) @ ''m''] else []) @
    (if n mod 60 \<noteq> 0 then [str_int (n mod 60) @ ''s''] else []) @ []"
    by (simp only: humanize_parts.simps Let_def m1 m2 div_by_1)
  then show ?thesis
    by (simp only: parts_list)
qed

lemma components_zero:
  fixes n :: int
  assumes "n div 86400 = 0" "n mod 86400 div 3600 = 0" "n mod 3600 div 60 = 0" "n mod 60 = 0"
  shows "n = 0"
  using assms by presburger

lemma humanize_delta_spec: "humanize_delta d = spec_humanize (total_seconds_int d)"
proof (cases "total_seconds_int d = 0")
  case True
  have "humanize_parts 0 [(86400, ''d''), (3600, ''h''), (60, ''m''), (1, ''s'')] = []"
    by (simp add: Let_def)
  with True show ?thesis
    by (simp add: humanize_delta_def spec_humanize_def)
next
  case False
  let ?n = "total_seconds_int d"
  let ?cs = "filter (\<lambda>(v, suffix). v \<noteq> 0)
        [(?n div 86400, ''d''), (?n mod 86400 div 3600, ''h''),
         (?n mod 3600 div 60, ''m''), (?n mod 60, ''s'')]"
  have "?cs \<noteq> []"
  proof
    assume "?cs = []"
    then have "?n div 86400 = 0 \<and> ?n mod 86400 div 3600 = 0 \<and> ?n mod 3600 div 60 = 0 \<and> ?n mod 60 = 0"
      unfolding filter_empty_conv by simp
    with components_zero[of ?n] False show False by blast
  qed
  then have ne: "humanize_parts ?n [(86400, ''d''), (3600, ''h''), (60, ''m''), (1, ''s'')] \<noteq> []"
    unfolding humanize_parts_units by simp
  have "humanize_delta d = join '' '' (humanize_parts ?n [(86400, ''d''), (3600, ''h''), (60, ''m''), (1, ''s'')])"
    unfolding humanize_delta_def Let_def using ne by (simp only: if_True not_False_eq_True simp_thms)
  also have "\<dots> = spec_humanize ?n"
    unfolding spec_humanize_def humanize_parts_units using False by (simp only: if_False simp_thms)
  finally show ?thesis .
qed

section \<open>Rendering a parsed duration\<close>

lemma digit_char_props:
  assumes "d < 10"
  shows "is_digit (digit_char d) \<and> digit_val (digit_char d) = int d"
proof -
  from assms have "d \<in> {0, 1, 2, 3, 4, 5, 6, 7, 8, 9}" by auto
  then show ?thesis
    by (elim insertE emptyE) (simp_all add: digit_char_def is_digit_def digit_val_def)
qed

lemma str_nat_digits: "str_nat n \<noteq> [] \<and> (\<forall>c\<in>set (str_nat n). is_digit c)"
proof (induction n rule: str_nat.induct)
  case (1 n)
  show ?case
  proof (cases "n < 10")
    case True
    then show ?thesis by (subst (1 2) str_nat.simps) (simp add: digit_char_props)
  next
    case False
    have "n mod 10 < 10" by simp
    with 1 False show ?thesis
      by (subst (1 2) str_nat.simps) (simp add: digit_char_props)
  qed
qed

lemma int_of_digits_snoc: "int_of_digits (ds @ [c]) = 10 * int_of_digits ds + digit_val c"
  by (simp add: int_of_digits_def)

lemma str_nat_value: "int_of_digits (str_nat n) = int n"
proof (induction n rule: str_nat.induct)
  case (1 n)
  show ?case
  proof (cases "n < 10")
    case True
    then show ?thesis
      by (subst str_nat.simps) (simp add: int_of_digits_def digit_char_props)
  next
    case False
    have m: "n mod 10 < 10" by simp
    have "int_of_digits (str_nat n) = 10 * int_of_digits (str_nat (n div 10)) + digit_val (digit_char (n mod 10))"
      using False by (subst str_nat.simps) (simp add: int_of_digits_snoc)
    also have "\<dots> = 10 * int (n div 10) + int (n mod 10)"
      using 1 False digit_char_props[OF m] by simp
    also have "\<dots> = int n" by presburger
    finally show ?thesis .
  qed
qed

lemma str_nat_length: "n < 10 ^ k \<Longrightarrow> 0 < k \<Longrightarrow> length (str_nat n) \<le> k"
proof (induction n arbitrary: k rule: str_nat.induct)
  case (1 n)
  show ?case
  proof (cases "n < 10")
    case True
    with 1(3) show ?thesis by (subst str_nat.simps) simp
  next
    case False
    obtain j where k: "k = Suc j" using 1(3) by (cases k) auto
    have j: "0 < j"
    proof (rule ccontr)
      assume "\<not> 0 < j"
      with k 1(2) False show False by simp
    qed
    have "n div 10 < 10 ^ j" using 1(2) k by (simp add: less_mult_imp_div_less mult.commute)
    from 1(1)[OF False this j] have "length (str_nat (n div 10)) \<le> j" .
    with False k show ?thesis by (subst str_nat.simps) simp
  qed
qed


lemma unit_not_digit_space: "is_unit u \<Longrightarrow> \<not> is_digit u \<and> \<not> is_space u"
  unfolding is_unit_def is_digit_def is_space_def by (elim disjE | simp)+

lemma findall_pair:
  assumes "ds \<noteq> []" and "\<forall>c\<in>set ds. is_digit c" and "is_unit u"
  shows "duration_findall (ds @ u # rest) = (ds, u) # duration_findall rest"
proof -
  from assms(1) obtain c cs where ds: "ds = c # cs" by (cases ds) auto
  from assms(2) ds have c: "is_digit c" and cs: "\<And>x. x \<in> set cs \<Longrightarrow> is_digit x" by auto
  from unit_not_digit_space[OF assms(3)] have nd: "\<not> is_digit u" and ns: "\<not> is_space u" by auto
  have d: "dropWhile is_digit (cs @ u # rest) = u # rest"
    using cs nd by (simp add: dropWhile_append2)
  have t: "takeWhile is_digit (cs @ u # rest) = cs"
    using cs nd by (simp add: takeWhile_append2)
  have "duration_findall (c # (cs @ u # rest)) = (c # cs, u) # duration_findall rest"
    by (simp only: duration_findall.simps d t) (simp add: c ns assms(3))
  then show ?thesis by (simp add: ds)
qed

lemma findall_pairs:
  "list_all (\<lambda>(n, u). is_unit u) ps \<Longrightarrow>
   duration_findall (spec_pairs_string ps) = map (\<lambda>(n, u). (str_nat n, u)) ps"
proof (induction ps)
  case Nil
  then show ?case by (simp add: spec_pairs_string_def)
next
  case (Cons p ps)
  obtain n u where p: "p = (n, u)" by (cases p)
  from Cons.prems p have u: "is_unit u" and rest: "list_all (\<lambda>(n, u). is_unit u) ps" by auto
  have "spec_pairs_string (p # ps) = str_nat n @ u # spec_pairs_string ps"
    by (simp add: spec_pairs_string_def p)
  then show ?case
    using findall_pair[of "str_nat n" u "spec_pairs_string ps"] str_nat_digits[of n] u Cons.IH[OF rest]
    by (simp add: p)
qed

lemma spec_sum_pairs:
  assumes "list_all (\<lambda>(n, u). is_unit u) ps"
  shows "spec_duration_sum (spec_pairs_string ps) = spec_pairs_total ps"
proof -
  have "sum_list (map (\<lambda>(v, u). int_of_digits v * spec_unit_seconds u)
          (map (\<lambda>(n, u). (str_nat n, u)) qs)) = spec_pairs_total qs" for qs
    unfolding spec_pairs_total_def by (induction qs) (auto simp: str_nat_value)
  then show ?thesis
    unfolding spec_duration_sum_def findall_pairs[OF assms] .
qed

lemma unit_seconds_pos: "is_unit u \<Longrightarrow> 1 \<le> spec_unit_seconds u"
  unfolding is_unit_def spec_unit_seconds_def by (elim disjE | simp)+

lemma pair_le_total:
  assumes "list_all (\<lambda>(n, u). is_unit u) ps" and "(n, u) \<in> set ps"
  shows "int n \<le> spec_pairs_total ps"
  using assms
proof (induction ps)
  case Nil
  then show ?case by simp
next
  case (Cons p ps)
  obtain m w where p: "p = (m, w)" by (cases p)
  from Cons.prems(1) p have w: "is_unit w" and rest: "list_all (\<lambda>(n, u). is_unit u) ps" by auto
  have t: "spec_pairs_total (p # ps) = int m * spec_unit_seconds w + spec_pairs_total ps"
    by (simp add: spec_pairs_total_def p)
  have m: "int m \<le> int m * spec_unit_seconds w"
    using unit_seconds_pos[OF w] by (simp add: mult_le_cancel_left1)
  have nn: "0 \<le> int m * spec_unit_seconds w"
    using unit_seconds_pos[OF w] by simp
  have tn: "0 \<le> spec_pairs_total ps"
    using rest
  proof (induction ps)
    case Nil
    then show ?case by (simp add: spec_pairs_total_def)
  next
    case (Cons q qs)
    obtain a b where q: "q = (a, b)" by (cases q)
    from Cons.prems q have "is_unit b" and r: "list_all (\<lambda>(n, u). is_unit u) qs" by auto
    then have "0 \<le> int a * spec_unit_seconds b" using unit_seconds_pos[of b] by simp
    with Cons.IH[OF r] show ?case by (simp add: spec_pairs_total_def q)
  qed
  show ?case
  proof (cases "(n, u) = p")
    case True
    with p m tn t show ?thesis by simp
  next
    case False
    with Cons.prems(2) have "(n, u) \<in> set ps" by simp
    from Cons.IH[OF rest this] nn t show ?thesis by simp
  qed
qed

lemma parse_duration_total:
  assumes digits: "\<forall>(v, u)\<in>set (duration_findall s). length v \<le> MAX_STR_DIGITS"
    and range: "spec_duration_sum s \<le> 86399999999999"
  shows "parse_duration s =
    Inr (if duration_findall s = [] \<or> spec_duration_sum s \<le> 0 then None
         else Some (1000000 * spec_duration_sum s))"
proof -
  have "\<forall>(v, u)\<in>set (duration_findall s). length v \<le> MAX_STR_DIGITS \<and> is_unit u"
    using digits findall_digits by fastforce
  then have sm: "sum_matches 0 (duration_findall s) = Inr (spec_duration_sum s)"
    by (simp add: sum_matches_spec spec_duration_sum_def)
  have td: "timedelta_seconds (spec_duration_sum s) = Inr (spec_duration_sum s * 1000000)"
    if "0 < spec_duration_sum s"
    using that range unfolding timedelta_seconds_def by (simp add: not_less) linarith
  show ?thesis
    unfolding parse_duration_def Let_def sm using td by (auto simp: not_le)
qed

lemma parse_valid_duration:
  assumes "spec_valid_duration ps"
  shows "parse_duration (spec_pairs_string ps) = Inr (Some (1000000 * spec_pairs_total ps))"
proof -
  from assms have ne: "ps \<noteq> []" and units: "list_all (\<lambda>(n, u). is_unit u) ps"
    and pos: "0 < spec_pairs_total ps" and range: "spec_pairs_total ps \<le> 86399999999999"
    by (simp_all add: spec_valid_duration_def)
  have len: "length (str_nat n) \<le> MAX_STR_DIGITS" if "(n, u) \<in> set ps" for n u
  proof -
    from pair_le_total[OF units that] range have "int n < 10 ^ 14" by simp
    then have "n < 10 ^ 14" by (simp add: of_nat_less_numeral_power_cancel_iff)
    from str_nat_length[OF this] show ?thesis by (simp add: MAX_STR_DIGITS_def)
  qed
  have d: "\<forall>(v, u)\<in>set (duration_findall (spec_pairs_string ps)). length v \<le> MAX_STR_DIGITS"
    unfolding findall_pairs[OF units] using len by auto
  have f: "duration_findall (spec_pairs_string ps) \<noteq> []"
    unfolding findall_pairs[OF units] using ne by simp
  have r: "spec_duration_sum (spec_pairs_string ps) \<le> 86399999999999"
    using range by (simp add: spec_sum_pairs[OF units])
  show ?thesis
    using parse_duration_total[OF d r] f pos by (simp add: spec_sum_pairs[OF units])
qed

lemma spec_pairs_total_mset:
  assumes "mset ps = mset qs"
  shows "spec_pairs_total ps = spec_pairs_total qs"
proof -
  have "sum_list (map f zs) = sum_mset (image_mset f (mset zs))" for f :: "nat \<times> char \<Rightarrow> int" and zs
    by (simp add: sum_mset_sum_list [symmetric])
  then show ?thesis
    unfolding spec_pairs_total_def using assms by simp
qed

text \<open>
  Claim C6. Take two valid duration strings, each composed of (integer, unit) pairs in
  any order, that denote the same total (by \<open>spec_pairs_total_mset\<close> the same pairs in
  another order do). \<open>parse_duration\<close> returns a duration for both, the same one, and
  \<open>humanize_delta\<close> renders it in the canonical form of the specification: the non-zero
  components among days, hours, minutes and seconds, largest first, joined by spaces. A
  zero duration is rendered \<open>0s\<close>.
\<close>

theorem humanize_parse_canonical:
  assumes "spec_valid_duration ps" and "spec_valid_duration qs"
    and "spec_pairs_total ps = spec_pairs_total qs"
  shows "parse_duration (spec_pairs_string ps) = Inr (Some (1000000 * spec_pairs_total ps)) \<and>
         parse_duration (spec_pairs_string qs) = Inr (Some (1000000 * spec_pairs_total ps)) \<and>
         humanize_delta (1000000 * spec_pairs_total ps) = spec_humanize (spec_pairs_total ps) \<and>
         humanize_delta 0 = ''0s''"
proof -
  from assms(1) have pos: "0 < spec_pairs_total ps" by (simp add: spec_valid_duration_def)
  have t: "total_seconds_int (1000000 * spec_pairs_total ps) = spec_pairs_total ps"
    using pos by (simp add: total_seconds_int_def)
  have z: "humanize_delta 0 = ''0s''"
    by (simp add: humanize_delta_spec total_seconds_int_def spec_humanize_def)
  from parse_valid_duration[OF assms(1)] parse_valid_duration[OF assms(2)] assms(3) t z
  show ?thesis by (simp add: humanize_delta_spec)
qed

theorem humanize_parse_canonical_witness:
  "spec_pairs_string [(1, CHR ''h''), (20, CHR ''m'')] = ''1h20m'' \<and>
   spec_pairs_string [(20, CHR ''m''), (1, CHR ''h'')] = ''20m1h'' \<and>
   parse_duration ''1h20m'' = Inr (Some 4800000000) \<and>
   parse_duration ''20m1h'' = Inr (Some 4800000000) \<and>
   humanize_delta 4800000000 = ''1h 20m'' \<and>
   humanize_delta 0 = ''0s''"
proof -
  let ?ps = "[(1, CHR ''h''), (20, CHR ''m'')] :: (nat \<times> char) list"
  let ?qs = "[(20, CHR ''m''), (1, CHR ''h'')] :: (nat \<times> char) list"
  have sp: "spec_pairs_string ?ps = ''1h20m''" by code_simp
  have sq: "spec_pairs_string ?qs = ''20m1h''" by code_simp
  have tp: "spec_pairs_total ?ps = 4800" by code_simp
  have tq: "spec_pairs_total ?qs = 4800" by code_simp
  have vp: "spec_valid_duration ?ps" by code_simp
  have vq: "spec_valid_duration ?qs" by code_simp
  have e: "spec_pairs_total ?ps = spec_pairs_total ?qs" by (simp only: tp tq)
  have r: "spec_humanize 4800 = ''1h 20m''" by code_simp
  from humanize_parse_canonical [OF vp vq e]
  have "parse_duration ''1h20m'' = Inr (Some 4800000000) \<and>
        parse_duration ''20m1h'' = Inr (Some 4800000000) \<and>
        humanize_delta 4800000000 = ''1h 20m'' \<and> humanize_delta 0 = ''0s''"
    unfolding sp sq tp r by simp
  with sp sq show ?thesis by (intro conjI) simp_all
qed

section \<open>The listing\<close>











section \<open>Cancelling\<close>

lemma mutate_delete_absent:
  assumes "map_of (jobs_of s c) a = None"
  shows "mutate_jobs c (AList.delete a) s = s"
proof (cases "chat_data s c")
  case None
  then show ?thesis by (simp add: mutate_jobs_def)
next
  case (Some js)
  with assms have "a \<notin> fst ` set js" by (simp add: jobs_of_def map_of_eq_None_iff)
  then have "AList.delete a js = js" by simp
  moreover have "(chat_data s)(c \<mapsto> js) = chat_data s" using Some by (rule map_upd_triv)
  ultimately show ?thesis using Some by (simp add: mutate_jobs_def)
qed

lemma lower_job_id: "lower (job_id_of c ms) \<noteq> ''all''"
proof -
  have l: "lower_char CHR ''-'' = CHR ''-''" by code_simp
  have "CHR ''-'' \<in> set (job_id_of c ms)" by (simp add: job_id_of_def)
  then have "lower_char CHR ''-'' \<in> set (lower (job_id_of c ms))"
    unfolding lower_def by (simp only: set_map) (rule imageI)
  then have "CHR ''-'' \<in> set (lower (job_id_of c ms))" by (simp only: l)
  moreover have "CHR ''-'' \<notin> set ''all''" by simp
  ultimately show ?thesis by metis
qed

text \<open>
  Claim C7, as the code has it. \<open>cancel\<close> with an identifier that is not \<open>all\<close> in any
  letter case and is not a key of the chat's registry changes nothing but the log of
  messages sent: the registry and the job queue are as they were, and the one message sent
  is the reply that the reminder was not found. When sending the reply fails, the state is
  unchanged and the error is the handler's.
\<close>

theorem cancel_unknown_id:
  assumes "effective_message u = Some m" and "args u = a # as" and "lower a \<noteq> ''all''"
    and "map_of (jobs_of s (chat_id m)) a = None"
  shows "cancel e u s =
    (case transport e of
       None \<Rightarrow> (s, Some DeliveryError)
     | Some mid \<Rightarrow> (s\<lparr>sent := sent s @ [Reply (chat_id m) NotFound]\<rparr>, None))"
proof -
  have "cancel e u s = cancel_one e m a s"
    using assms(1-3) by (simp add: cancel_def Let_def)
  also have "\<dots> = reply_only e m NotFound s"
    using assms(4) by (simp add: cancel_one_def Let_def mutate_delete_absent)
  finally show ?thesis by (simp add: reply_only_def)
qed

theorem cancel_unknown_id_witness:
  "let s1 = fst (remind
          \<lparr>now_dt = 63869018400000000, time_ms = 1000, transport = Some 50\<rparr>
          \<lparr>effective_message = Some \<lparr>chat_id = 7, message_id = 1, reply_to_message = None\<rparr>,
             args = [''10m'', ''hi'']\<rparr>
          \<lparr>job_queue = Some Map.empty, next_handle = 0, chat_data = Map.empty, sent = [],
             deleted = []\<rparr>)
   in cancel
          \<lparr>now_dt = 63869018460000000, time_ms = 2000, transport = Some 51\<rparr>
          \<lparr>effective_message = Some \<lparr>chat_id = 7, message_id = 2, reply_to_message = None\<rparr>,
             args = [''7-9999'']\<rparr> s1 =
      (s1\<lparr>sent := sent s1 @ [Reply 7 NotFound]\<rparr>, None)"
proof -
  define e1 where "e1 = \<lparr>now_dt = 63869018460000000, time_ms = 2000, transport = Some 51\<rparr>"
  define m1 where "m1 = \<lparr>chat_id = 7, message_id = 2, reply_to_message = None\<rparr>"
  define u1 where "u1 = \<lparr>effective_message = Some m1, args = [''7-9999'']\<rparr>"
  define s1 where "s1 = fst (remind
          \<lparr>now_dt = 63869018400000000, time_ms = 1000, transport = Some 50\<rparr>
          \<lparr>effective_message = Some \<lparr>chat_id = 7, message_id = 1, reply_to_message = None\<rparr>,
             args = [''10m'', ''hi'']\<rparr>
          \<lparr>job_queue = Some Map.empty, next_handle = 0, chat_data = Map.empty, sent = [],
             deleted = []\<rparr>)"
  have h1: "effective_message u1 = Some m1" by (simp add: u1_def)
  have h2: "args u1 = ''7-9999'' # []" by (simp add: u1_def)
  have h3: "lower ''7-9999'' \<noteq> ''all''" by code_simp
  have "map_of (jobs_of s1 7) ''7-9999'' = None" unfolding s1_def by code_simp
  then have h4: "map_of (jobs_of s1 (chat_id m1)) ''7-9999'' = None" by (simp add: m1_def)
  from cancel_unknown_id [OF h1 h2 h3 h4, of e1]
  have "cancel e1 u1 s1 = (s1\<lparr>sent := sent s1 @ [Reply 7 NotFound]\<rparr>, None)"
    by (simp add: e1_def m1_def)
  then show ?thesis unfolding Let_def e1_def u1_def m1_def s1_def .
qed

text \<open>
  Claim C7 as stated fails for the identifier \<open>all\<close>, which is the key of no reminder
  (\<open>lower_job_id\<close>): \<open>cancel\<close> takes it for the request to cancel every reminder of
  the chat. With one reminder in the chat, the registry is emptied, its job is removed and
  the reply is that all reminders were cancelled.
\<close>

theorem cancel_all_is_not_an_unknown_id:
  "let s1 = fst (remind
          \<lparr>now_dt = 63869018400000000, time_ms = 1000, transport = Some 50\<rparr>
          \<lparr>effective_message = Some \<lparr>chat_id = 7, message_id = 1, reply_to_message = None\<rparr>,
             args = [''10m'', ''hi'']\<rparr>
          \<lparr>job_queue = Some Map.empty, next_handle = 0, chat_data = Map.empty, sent = [],
             deleted = []\<rparr>);
       s2 = fst (cancel
          \<lparr>now_dt = 63869018460000000, time_ms = 2000, transport = Some 51\<rparr>
          \<lparr>effective_message = Some \<lparr>chat_id = 7, message_id = 2, reply_to_message = None\<rparr>,
             args = [''all'']\<rparr> s1)
   in map fst (jobs_of s1 7) = [''7-1000''] \<and> map_of (jobs_of s1 7) ''all'' = None \<and>
      armed s1 1 \<and> jobs_of s2 7 = [] \<and> \<not> armed s2 1 \<and>
      sent s2 = sent s1 @ [Reply 7 AllCancelled]"
  by code_simp

lemma fold_removal_fields:
  "chat_data (fold (\<lambda>(jid, d). schedule_removal (r_job d)) js s) = chat_data s \<and>
   next_handle (fold (\<lambda>(jid, d). schedule_removal (r_job d)) js s) = next_handle s \<and>
   sent (fold (\<lambda>(jid, d). schedule_removal (r_job d)) js s) = sent s"
  by (induction js arbitrary: s) (auto simp: schedule_removal_def)

lemma removal_armed: "armed (schedule_removal k s) h \<longleftrightarrow> armed s h \<and> h \<noteq> k"
  by (auto simp: armed_def schedule_removal_def split: option.splits)



lemma mutate_next_handle: "next_handle (mutate_jobs c f s) = next_handle s"
  by (simp add: mutate_jobs_def split: option.splits)

lemma reply_and_cleanup_chat_data:
  "chat_data (fst (reply_and_cleanup e m b k s)) = chat_data s"
  by (simp add: reply_and_cleanup_def arm_def Let_def split: option.splits)

lemma reply_and_cleanup_armed:
  "h < next_handle s \<Longrightarrow> armed (fst (reply_and_cleanup e m b k s)) h = armed s h"
  by (simp add: reply_and_cleanup_def arm_def armed_def Let_def split: option.splits)

lemma reply_and_cleanup_sent:
  "transport e = Some mid \<Longrightarrow>
   sent (fst (reply_and_cleanup e m b k s)) = sent s @ [Reply (chat_id m) b]"
  by (simp add: reply_and_cleanup_def arm_def Let_def split: option.splits)

lemma jobs_of_reply_and_cleanup:
  "jobs_of (fst (reply_and_cleanup e m b k s)) c = jobs_of s c"
  by (simp add: jobs_of_def reply_and_cleanup_chat_data)




text \<open>
  Claim C8. \<open>cancel\<close> without an identifier, in a chat whose registry holds exactly one
  reminder (under an identifier that \<open>remind\<close> made, with a handle that the queue gave
  out, as \<open>registry_ok\<close> has it of every state the bot reaches), removes that record, removes its job from the queue and replies with the
  confirmation that names the identifier; the request to specify an identifier is not
  sent. When sending the confirmation fails, the record and the job are removed all the
  same.
\<close>

theorem cancel_single_auto:
  assumes "effective_message u = Some m" and "args u = []"
    and "jobs_of s (chat_id m) = [(job_id_of c ms, r)]"
    and "r_job r < next_handle s"
  shows "jobs_of (fst (cancel e u s)) (chat_id m) = [] \<and>
         \<not> armed (fst (cancel e u s)) (r_job r) \<and>
         (case transport e of
            None \<Rightarrow> sent (fst (cancel e u s)) = sent s
          | Some mid \<Rightarrow> sent (fst (cancel e u s)) =
              sent s @ [Reply (chat_id m)
                (Cancelled (html_escape (job_id_of c ms)) (target_display (r_target r)))])"
proof -
  let ?jid = "job_id_of c ms"
  let ?s1 = "mutate_jobs (chat_id m) (AList.delete ?jid) s"
  let ?s2 = "schedule_removal (r_job r) ?s1"
  let ?b = "Cancelled (html_escape ?jid) (target_display (r_target r))"
  have "cancel e u s = cancel_one e m ?jid s"
    using assms(1-3) lower_job_id[of c ms] by (simp add: cancel_def Let_def)
  also have "\<dots> = reply_and_cleanup e m ?b 10 ?s2"
    using assms(3) by (simp add: cancel_one_def Let_def)
  finally have c: "cancel e u s = reply_and_cleanup e m ?b 10 ?s2" .
  from assms(3) have cd: "chat_data s (chat_id m) = Some [(?jid, r)]"
    by (cases "chat_data s (chat_id m)") (auto simp: jobs_of_def)
  then have "jobs_of ?s2 (chat_id m) = []"
    by (simp add: jobs_of_def mutate_jobs_def schedule_removal_def)
  then have empty: "jobs_of (fst (cancel e u s)) (chat_id m) = []"
    by (simp add: c jobs_of_reply_and_cleanup)
  have nh: "r_job r < next_handle ?s2"
    using assms(4) by (simp add: schedule_removal_def mutate_next_handle)
  have "armed (fst (cancel e u s)) (r_job r) = armed ?s2 (r_job r)"
    unfolding c using nh by (rule reply_and_cleanup_armed)
  then have disarmed: "\<not> armed (fst (cancel e u s)) (r_job r)"
    by (simp add: removal_armed)
  have st: "sent ?s2 = sent s"
    by (simp add: schedule_removal_def mutate_jobs_def split: option.splits)
  have "case transport e of None \<Rightarrow> sent (fst (cancel e u s)) = sent s
        | Some mid \<Rightarrow> sent (fst (cancel e u s)) = sent s @ [Reply (chat_id m) ?b]"
    unfolding c using st
    by (simp add: reply_and_cleanup_def arm_def Let_def split: option.splits)
  with empty disarmed show ?thesis by simp
qed

theorem cancel_single_auto_witness:
  "let s1 = fst (remind
          \<lparr>now_dt = 63869018400000000, time_ms = 1000, transport = Some 50\<rparr>
          \<lparr>effective_message = Some \<lparr>chat_id = 7, message_id = 1, reply_to_message = None\<rparr>,
             args = [''10m'', ''hi'']\<rparr>
          \<lparr>job_queue = Some Map.empty, next_handle = 0, chat_data = Map.empty, sent = [],
             deleted = []\<rparr>);
       s2 = fst (cancel
          \<lparr>now_dt = 63869018460000000, time_ms = 2000, transport = Some 51\<rparr>
          \<lparr>effective_message = Some \<lparr>chat_id = 7, message_id = 2, reply_to_message = None\<rparr>,
             args = []\<rparr> s1)
   in jobs_of s2 7 = [] \<and> \<not> armed s2 1 \<and>
      sent s2 = sent s1 @ [Reply 7 (Cancelled ''7-1000'' NoAddressee)]"
proof -
  define e1 where "e1 = \<lparr>now_dt = 63869018460000000, time_ms = 2000, transport = Some 51\<rparr>"
  define m1 where "m1 = \<lparr>chat_id = 7, message_id = 2, reply_to_message = None\<rparr>"
  define u1 where "u1 = \<lparr>effective_message = Some m1, args = []\<rparr>"
  define r0 where "r0 = \<lparr>r_job = 1, r_target = None, r_text = ''hi'',
                   r_due_at = 63869019000000000, r_repeat_interval = None\<rparr>"
  define s1 where "s1 = fst (remind
          \<lparr>now_dt = 63869018400000000, time_ms = 1000, transport = Some 50\<rparr>
          \<lparr>effective_message = Some \<lparr>chat_id = 7, message_id = 1, reply_to_message = None\<rparr>,
             args = [''10m'', ''hi'']\<rparr>
          \<lparr>job_queue = Some Map.empty, next_handle = 0, chat_data = Map.empty, sent = [],
             deleted = []\<rparr>)"
  have h1: "effective_message u1 = Some m1" by (simp add: u1_def)
  have h2: "args u1 = []" by (simp add: u1_def)
  have c: "chat_id m1 = 7" by (simp add: m1_def)
  have i: "job_id_of 7 1000 = ''7-1000''" by code_simp
  have "jobs_of s1 7 = [(''7-1000'', r0)]" unfolding s1_def r0_def by code_simp
  then have h3: "jobs_of s1 (chat_id m1) = [(job_id_of 7 1000, r0)]" by (simp only: c i)
  have n: "next_handle s1 = 3" unfolding s1_def by code_simp
  have h4: "r_job r0 < next_handle s1" by (simp add: n r0_def)
  have x: "html_escape ''7-1000'' = ''7-1000''" by code_simp
  from cancel_single_auto [OF h1 h2 h3 h4, of e1]
  have "jobs_of (fst (cancel e1 u1 s1)) 7 = [] \<and> \<not> armed (fst (cancel e1 u1 s1)) 1 \<and>
        sent (fst (cancel e1 u1 s1)) = sent s1 @ [Reply 7 (Cancelled ''7-1000'' NoAddressee)]"
    by (simp add: c i x e1_def r0_def target_display_def)
  then show ?thesis unfolding Let_def e1_def u1_def m1_def s1_def .
qed

section \<open>Firing\<close>

text \<open>
  Claim C1, at a repeating reminder that fires once. \<open>/remind 10m every 1h hi\<close> stores a
  record due ten minutes later. When the job runs at that time the reminder is sent and
  \<open>send_reminder\<close> writes the next due time, the time of the run plus one hour, into
  the data of the job; the record in the chat's registry stays in the registry but keeps
  its first due time, and a listing one second later shows \<open>0s\<close> left. The claim has the
  due time of the registry's record advanced to the time of the run plus the interval.
\<close>

theorem repeat_fire_leaves_registry_due_at:
  "let s1 = fst (remind
          \<lparr>now_dt = 63869018400000000, time_ms = 1000, transport = Some 50\<rparr>
          \<lparr>effective_message = Some \<lparr>chat_id = 7, message_id = 1, reply_to_message = None\<rparr>,
             args = [''10m'', ''every'', ''1h'', ''hi'']\<rparr>
          \<lparr>job_queue = Some Map.empty, next_handle = 0, chat_data = Map.empty, sent = [],
             deleted = []\<rparr>);
       fired = run_job \<lparr>now_dt = 63869019000000000, time_ms = 601000, transport = Some 51\<rparr> 1 s1;
       s2 = fst fired
   in map (\<lambda>(jid, r). (jid, r_due_at r, r_repeat_interval r)) (jobs_of s1 7) =
        [(''7-1000'', 63869019000000000, Some 3600000000)] \<and>
      snd fired = None \<and>
      sent s2 = sent s1 @ [Notification 7 (Reminder None ''hi'') None] \<and>
      map (\<lambda>(jid, r). (jid, r_due_at r, r_repeat_interval r)) (jobs_of s2 7) =
        [(''7-1000'', 63869019000000000, Some 3600000000)] \<and>
      (case job_queue s2 of None \<Rightarrow> None
       | Some q \<Rightarrow> (case q 1 of None \<Rightarrow> None
           | Some j \<Rightarrow> (case j_data j of SendReminder d \<Rightarrow> Some (j_name j, jd_due_at d)
               | DeleteMessage c mid \<Rightarrow> None))) = Some (''7-1000'', 63869022600000000) \<and>
      (case last (sent (fst (list_reminders
          \<lparr>now_dt = 63869019001000000, time_ms = 602000, transport = Some 52\<rparr>
          \<lparr>effective_message = Some \<lparr>chat_id = 7, message_id = 2, reply_to_message = None\<rparr>,
             args = []\<rparr> s2))) of
         Reply c (Listing lines) \<Rightarrow> map ll_eta lines | other \<Rightarrow> []) = [''0s'']"
  by code_simp

text \<open>
  Claim C2, at a one-shot reminder whose delivery fails. When the job runs and the
  message is sent, the record leaves the chat's registry. When sending raises, the error
  leaves \<open>send_reminder\<close> at once: the record is still in the registry and nothing
  else has changed. The claim has the record removed in both cases.
\<close>

theorem failed_delivery_skips_bookkeeping:
  "let s1 = fst (remind
          \<lparr>now_dt = 63869018400000000, time_ms = 1000, transport = Some 50\<rparr>
          \<lparr>effective_message = Some \<lparr>chat_id = 7, message_id = 1, reply_to_message = None\<rparr>,
             args = [''10m'', ''hi'']\<rparr>
          \<lparr>job_queue = Some Map.empty, next_handle = 0, chat_data = Map.empty, sent = [],
             deleted = []\<rparr>);
       delivered = run_job \<lparr>now_dt = 63869019000000000, time_ms = 601000, transport = Some 51\<rparr> 1 s1;
       failed = run_job \<lparr>now_dt = 63869019000000000, time_ms = 601000, transport = None\<rparr> 1 s1
   in map fst (jobs_of s1 7) = [''7-1000''] \<and>
      snd delivered = None \<and> jobs_of (fst delivered) 7 = [] \<and>
      sent (fst delivered) = sent s1 @ [Notification 7 (Reminder None ''hi'') None] \<and>
      snd failed = Some DeliveryError \<and> map fst (jobs_of (fst failed) 7) = [''7-1000''] \<and>
      sent (fst failed) = sent s1"
  by code_simp

section \<open>Identifiers of reminders\<close>

lemma str_nat_inj: "str_nat a = str_nat b \<Longrightarrow> a = b"
proof -
  assume "str_nat a = str_nat b"
  then have "int_of_digits (str_nat a) = int_of_digits (str_nat b)" by simp
  then show "a = b" by (simp add: str_nat_value)
qed

lemma str_nat_no_minus: "str_nat n \<noteq> CHR ''-'' # cs"
proof
  assume e: "str_nat n = CHR ''-'' # cs"
  from str_nat_digits[of n] have "\<forall>c\<in>set (str_nat n). is_digit c" by simp
  with e have "is_digit CHR ''-''" by simp
  then show False by (simp add: is_digit_def)
qed

lemma str_int_inj: "str_int a = str_int b \<Longrightarrow> a = b"
proof -
  assume e: "str_int a = str_int b"
  consider "a < 0" "b < 0" | "0 \<le> a" "0 \<le> b" | "a < 0" "0 \<le> b" | "0 \<le> a" "b < 0"
    by linarith
  then show "a = b"
  proof cases
    case 1
    with e have "str_nat (nat (- a)) = str_nat (nat (- b))" by (simp add: str_int_def)
    from str_nat_inj[OF this] 1 show ?thesis by simp
  next
    case 2
    with e have "str_nat (nat a) = str_nat (nat b)" by (simp add: str_int_def)
    from str_nat_inj[OF this] 2 show ?thesis by simp
  next
    case 3
    with e have "str_nat (nat b) = CHR ''-'' # str_nat (nat (- a))" by (simp add: str_int_def)
    with str_nat_no_minus show ?thesis by blast
  next
    case 4
    with e have "str_nat (nat a) = CHR ''-'' # str_nat (nat (- b))" by (simp add: str_int_def)
    with str_nat_no_minus show ?thesis by blast
  qed
qed

lemma job_id_inj: "job_id_of c a = job_id_of c b \<Longrightarrow> a = b"
  by (simp add: job_id_of_def str_int_inj)

lemma schedule_registry:
  "chat_data (fst (schedule e m rq s)) =
     (chat_data s)(chat_id m \<mapsto>
        AList.update (job_id_of (chat_id m) (time_ms e))
          \<lparr>r_job = next_handle s, r_target = mention_of rq, r_text = q_text rq,
             r_due_at = q_due_at rq, r_repeat_interval = q_repeat_interval rq\<rparr>
          (jobs_of s (chat_id m)))"
  by (simp add: schedule_def Let_def arm_def jobs_of_def reply_and_cleanup_chat_data split: prod.splits)

lemma arm_queue: "job_queue s = Some q \<Longrightarrow> \<exists>q'. job_queue (snd (arm j s)) = Some q'"
  by (simp add: arm_def)

lemma reply_and_cleanup_queue:
  "job_queue s = Some q \<Longrightarrow> \<exists>q'. job_queue (fst (reply_and_cleanup e m b k s)) = Some q'"
  by (simp add: reply_and_cleanup_def arm_def Let_def split: option.splits)

lemma remind_creates:
  assumes "effective_message u = Some m" and "read_request (now_dt e) m (args u) = Inr rq"
    and "job_queue s = Some q"
  shows "remind e u s = schedule e m rq (snd (arm (cleanup_job (chat_id m) (message_id m) 10) s))"
proof -
  from arm_queue[OF assms(3)] obtain q'
    where "job_queue (snd (arm (cleanup_job (chat_id m) (message_id m) 10) s)) = Some q'" by blast
  with assms show ?thesis by (simp add: remind_def Let_def)
qed

lemma schedule_queue:
  "job_queue s = Some q \<Longrightarrow> \<exists>q'. job_queue (fst (schedule e m rq s)) = Some q'"
proof -
  assume q: "job_queue s = Some q"
  obtain h s1 where a: "arm \<lparr>j_name = job_id_of (chat_id m) (time_ms e),
       j_data = SendReminder \<lparr>jd_chat_id = chat_id m, jd_mention = mention_of rq, jd_text = q_text rq,
                  jd_reply_to = map_option rm_message_id (reply_to_message m),
                  jd_due_at = q_due_at rq, jd_repeat_interval = q_repeat_interval rq\<rparr>,
       j_first = q_delay rq,
       j_interval = (if td_truthy (q_repeat_interval rq) then q_repeat_interval rq else None)\<rparr> s = (h, s1)"
    by (cases "arm \<lparr>j_name = job_id_of (chat_id m) (time_ms e),
       j_data = SendReminder \<lparr>jd_chat_id = chat_id m, jd_mention = mention_of rq, jd_text = q_text rq,
                  jd_reply_to = map_option rm_message_id (reply_to_message m),
                  jd_due_at = q_due_at rq, jd_repeat_interval = q_repeat_interval rq\<rparr>,
       j_first = q_delay rq,
       j_interval = (if td_truthy (q_repeat_interval rq) then q_repeat_interval rq else None)\<rparr> s")
  with q obtain q1 where "job_queue s1 = Some q1" by (auto simp: arm_def)
  then have "\<exists>q'. job_queue (fst (reply_and_cleanup e m b k (s1\<lparr>chat_data := cd\<rparr>))) = Some q'" for b k cd
    by (intro reply_and_cleanup_queue[of _ q1]) simp
  then show ?thesis unfolding schedule_def Let_def a by simp
qed

lemma remind_create_registry:
  assumes "effective_message u = Some m" and "read_request (now_dt e) m (args u) = Inr rq"
    and "job_queue s = Some q"
  shows "jobs_of (fst (remind e u s)) (chat_id m) =
        AList.update (job_id_of (chat_id m) (time_ms e))
          \<lparr>r_job = Suc (next_handle s), r_target = mention_of rq, r_text = q_text rq,
             r_due_at = q_due_at rq, r_repeat_interval = q_repeat_interval rq\<rparr>
          (jobs_of s (chat_id m)) \<and>
     (\<exists>q'. job_queue (fst (remind e u s)) = Some q')"
proof -
  let ?s0 = "snd (arm (cleanup_job (chat_id m) (message_id m) 10) s)"
  have r: "remind e u s = schedule e m rq ?s0" by (rule remind_creates[OF assms])
  have j: "jobs_of ?s0 (chat_id m) = jobs_of s (chat_id m)" by (simp add: jobs_of_def arm_def)
  have n: "next_handle ?s0 = Suc (next_handle s)" by (simp add: arm_def)
  from arm_queue[OF assms(3)] obtain q0 where "job_queue ?s0 = Some q0" by blast
  from schedule_queue[OF this] have "\<exists>q'. job_queue (fst (remind e u s)) = Some q'"
    unfolding r .
  moreover have "jobs_of (fst (remind e u s)) (chat_id m) =
        AList.update (job_id_of (chat_id m) (time_ms e))
          \<lparr>r_job = Suc (next_handle s), r_target = mention_of rq, r_text = q_text rq,
             r_due_at = q_due_at rq, r_repeat_interval = q_repeat_interval rq\<rparr>
          (jobs_of s (chat_id m))"
    unfolding r by (simp add: jobs_of_def[of "fst (schedule e m rq ?s0)"] schedule_registry j n)
  ultimately show ?thesis by simp
qed

text \<open>
  Claim C3, as the code has it. Take two \<open>/remind\<close> commands in the same chat that both
  create a reminder (each command reads as a request and the job queue exists), the second
  run on the state the first leaves. When the two readings of the clock, in milliseconds,
  differ, the identifiers allocated are distinct and, after both, the registry of the chat
  holds the first reminder under the first identifier and the second under the second.
\<close>

theorem distinct_clock_distinct_ids:
  assumes "effective_message u1 = Some m1" and "effective_message u2 = Some m2"
    and "chat_id m2 = chat_id m1" and "time_ms e1 \<noteq> time_ms e2"
    and "read_request (now_dt e1) m1 (args u1) = Inr rq1"
    and "read_request (now_dt e2) m2 (args u2) = Inr rq2"
    and "job_queue s = Some q"
  shows "job_id_of (chat_id m1) (time_ms e1) \<noteq> job_id_of (chat_id m2) (time_ms e2) \<and>
    map_option r_text (map_of (jobs_of (fst (remind e2 u2 (fst (remind e1 u1 s)))) (chat_id m1))
       (job_id_of (chat_id m1) (time_ms e1))) = Some (q_text rq1) \<and>
    map_option r_text (map_of (jobs_of (fst (remind e2 u2 (fst (remind e1 u1 s)))) (chat_id m1))
       (job_id_of (chat_id m2) (time_ms e2))) = Some (q_text rq2)"
proof -
  let ?c = "chat_id m1"
  let ?s1 = "fst (remind e1 u1 s)"
  have ne: "job_id_of ?c (time_ms e1) \<noteq> job_id_of ?c (time_ms e2)"
    using assms(4) job_id_inj by blast
  from remind_create_registry[OF assms(1,5,7)] obtain q1 where q1: "job_queue ?s1 = Some q1"
    and j1: "jobs_of ?s1 ?c = AList.update (job_id_of ?c (time_ms e1))
          \<lparr>r_job = Suc (next_handle s), r_target = mention_of rq1, r_text = q_text rq1,
             r_due_at = q_due_at rq1, r_repeat_interval = q_repeat_interval rq1\<rparr>
          (jobs_of s ?c)" by blast
  from remind_create_registry[OF assms(2,6) q1]
  have j2: "jobs_of (fst (remind e2 u2 ?s1)) ?c = AList.update (job_id_of ?c (time_ms e2))
          \<lparr>r_job = Suc (next_handle ?s1), r_target = mention_of rq2, r_text = q_text rq2,
             r_due_at = q_due_at rq2, r_repeat_interval = q_repeat_interval rq2\<rparr>
          (jobs_of ?s1 ?c)" unfolding assms(3) by simp
  show ?thesis
    unfolding j2 j1 assms(3) using ne by (simp add: update_conv')
qed

theorem distinct_clock_distinct_ids_witness:
  "let s1 = fst (remind
          \<lparr>now_dt = 63869018400000000, time_ms = 1000, transport = Some 50\<rparr>
          \<lparr>effective_message = Some \<lparr>chat_id = 7, message_id = 1, reply_to_message = None\<rparr>,
             args = [''10m'', ''tea'']\<rparr>
          \<lparr>job_queue = Some Map.empty, next_handle = 0, chat_data = Map.empty, sent = [],
             deleted = []\<rparr>);
       s2 = fst (remind
          \<lparr>now_dt = 63869018400000500, time_ms = 1001, transport = Some 51\<rparr>
          \<lparr>effective_message = Some \<lparr>chat_id = 7, message_id = 2, reply_to_message = None\<rparr>,
             args = [''20m'', ''call'']\<rparr> s1)
   in map_option r_text (map_of (jobs_of s2 7) ''7-1000'') = Some ''tea'' \<and>
      map_option r_text (map_of (jobs_of s2 7) ''7-1001'') = Some ''call''"
proof -
  define e1 where "e1 = \<lparr>now_dt = 63869018400000000, time_ms = 1000, transport = Some 50\<rparr>"
  define m1 where "m1 = \<lparr>chat_id = 7, message_id = 1, reply_to_message = None\<rparr>"
  define u1 where "u1 = \<lparr>effective_message = Some m1, args = [''10m'', ''tea'']\<rparr>"
  define e2 where "e2 = \<lparr>now_dt = 63869018400000500, time_ms = 1001, transport = Some 51\<rparr>"
  define m2 where "m2 = \<lparr>chat_id = 7, message_id = 2, reply_to_message = None\<rparr>"
  define u2 where "u2 = \<lparr>effective_message = Some m2, args = [''20m'', ''call'']\<rparr>"
  define s0 where "s0 = \<lparr>job_queue = Some Map.empty, next_handle = 0, chat_data = Map.empty,
                          sent = [], deleted = []\<rparr>"
  define rq1 where "rq1 = \<lparr>q_target_user = None, q_target_label = None, q_is_all_target = False,
        q_due_at = 63869019000000000, q_delay = 600000000,
        q_repeat_interval = None, q_text = ''tea''\<rparr>"
  define rq2 where "rq2 = \<lparr>q_target_user = None, q_target_label = None, q_is_all_target = False,
        q_due_at = 63869019600000500, q_delay = 1200000000,
        q_repeat_interval = None, q_text = ''call''\<rparr>"
  have h1: "effective_message u1 = Some m1" by (simp add: u1_def)
  have h2: "effective_message u2 = Some m2" by (simp add: u2_def)
  have h3: "chat_id m2 = chat_id m1" by (simp add: m1_def m2_def)
  have h4: "time_ms e1 \<noteq> time_ms e2" by (simp add: e1_def e2_def)
  have h5: "read_request (now_dt e1) m1 (args u1) = Inr rq1"
    unfolding e1_def m1_def u1_def rq1_def by code_simp
  have h6: "read_request (now_dt e2) m2 (args u2) = Inr rq2"
    unfolding e2_def m2_def u2_def rq2_def by code_simp
  have h7: "job_queue s0 = Some Map.empty" by (simp add: s0_def)
  have i1: "job_id_of 7 1000 = ''7-1000''" by code_simp
  have i2: "job_id_of 7 1001 = ''7-1001''" by code_simp
  from distinct_clock_distinct_ids [OF h1 h2 h3 h4 h5 h6 h7]
  have "map_option r_text (map_of (jobs_of (fst (remind e2 u2 (fst (remind e1 u1 s0)))) 7) ''7-1000'')
          = Some ''tea'' \<and>
        map_option r_text (map_of (jobs_of (fst (remind e2 u2 (fst (remind e1 u1 s0)))) 7) ''7-1001'')
          = Some ''call''"
    by (simp add: m1_def m2_def e1_def e2_def i1 i2 rq1_def rq2_def)
  then show ?thesis unfolding Let_def e1_def u1_def m1_def e2_def u2_def m2_def s0_def .
qed

text \<open>
  Claim C3 as stated, "for any two create operations", fails: the identifier is the chat
  and the clock in milliseconds, with no counter and no check for an identifier in use.
  Two commands of one chat in the same millisecond are both answered with the identifier
  \<open>7-1000\<close>; the registry then holds one record, that of the second command, while
  the jobs of both stay in the queue.
\<close>

theorem same_clock_same_id:
  "let s1 = fst (remind
          \<lparr>now_dt = 63869018400000000, time_ms = 1000, transport = Some 50\<rparr>
          \<lparr>effective_message = Some \<lparr>chat_id = 7, message_id = 1, reply_to_message = None\<rparr>,
             args = [''10m'', ''tea'']\<rparr>
          \<lparr>job_queue = Some Map.empty, next_handle = 0, chat_data = Map.empty, sent = [],
             deleted = []\<rparr>);
       s2 = fst (remind
          \<lparr>now_dt = 63869018400000500, time_ms = 1000, transport = Some 51\<rparr>
          \<lparr>effective_message = Some \<lparr>chat_id = 7, message_id = 2, reply_to_message = None\<rparr>,
             args = [''20m'', ''call'']\<rparr> s1)
   in sent s2 = [Reply 7 (Scheduled NoAddressee ''10m'' ''7-1000'' ''tea'' None),
                 Reply 7 (Scheduled NoAddressee ''20m'' ''7-1000'' ''call'' None)] \<and>
      map (\<lambda>(jid, r). (jid, r_job r, r_text r)) (jobs_of s2 7) = [(''7-1000'', 4, ''call'')] \<and>
      armed s2 1 \<and> armed s2 4"
  by code_simp

section \<open>The addressee of a command\<close>

lemma example_request:
  assumes "reply_to_message m = None" and "0 \<le> now" and "now + 600000000 \<le> MAX_DATETIME"
  shows "read_request now m [''10m'', ''hello''] =
     Inr \<lparr>q_target_user = None, q_target_label = None, q_is_all_target = False,
          q_due_at = now + 600000000, q_delay = 600000000, q_repeat_interval = None,
          q_text = ''hello''\<rparr>"
proof -
  have p: "parse_duration ''10m'' = Inr (Some 600000000)" by code_simp
  have st: "split_target m [''10m'', ''hello''] = Inr (None, None, [''10m'', ''hello''])"
    using assms(1) by (simp add: split_target_def p td_truthy_def)
  have pt: "parse_time now [''10m'', ''hello''] = Inr (now + 600000000, 600000000, 1)"
    using assms(2,3) by (simp add: parse_time_def p td_truthy_def datetime_add_def)
  have pr: "parse_repeat [''hello''] = Inr (None, [''hello''])" by code_simp
  have tx: "strip ''hello'' = ''hello''" by code_simp
  have nt: "normalize_target_label None = (None, False)" by (simp add: normalize_target_label_def)
  show ?thesis
    by (simp add: read_request_def st read_time_and_text_def pt pr tx nt Let_def)
qed

text \<open>
  Claim C4, as the code has it. Take a \<open>/remind\<close> command that is not a reply, with at
  least one argument, whose first argument \<open>parse_duration\<close> accepts without raising
  (its integers have at most 4300 digits and its pairs sum to at most 86399999999999
  seconds). If the first argument parses as a duration or the arguments begin with a valid
  date and time, no addressee is read and all arguments are read as time and text. If not,
  and there is one argument only, the reply is the usage text; with two or more, the first
  argument is the addressee's label and the others are read as time and text. In
  particular \<open>["10m", "hello"]\<close> gives no addressee, the due time ten minutes after the
  current time and the text \<open>hello\<close>, when that due time is one a \<open>datetime\<close> holds.
\<close>

theorem target_disambiguation:
  assumes "reply_to_message m = None" and "as \<noteq> []"
    and "\<forall>(v, u)\<in>set (duration_findall (hd as)). length v \<le> MAX_STR_DIGITS"
    and "spec_duration_sum (hd as) \<le> 86399999999999"
  shows "read_request now m as =
      (if parse_duration (hd as) \<noteq> Inr None \<or> parse_datetime_spec as \<noteq> None
       then read_time_and_text now None None as
       else if length as < 2 then Inl (Say UsageLong)
       else read_time_and_text now None (Some (hd as)) (tl as)) \<and>
    (0 \<le> now \<and> now + 600000000 \<le> MAX_DATETIME \<longrightarrow>
     read_request now m [''10m'', ''hello''] =
       Inr \<lparr>q_target_user = None, q_target_label = None, q_is_all_target = False,
            q_due_at = now + 600000000, q_delay = 600000000, q_repeat_interval = None,
            q_text = ''hello''\<rparr>)"
proof -
  let ?d = "if duration_findall (hd as) = [] \<or> spec_duration_sum (hd as) \<le> 0 then None
            else Some (1000000 * spec_duration_sum (hd as))"
  have p: "parse_duration (hd as) = Inr ?d" by (rule parse_duration_total[OF assms(3,4)])
  have t: "td_truthy ?d \<longleftrightarrow> ?d \<noteq> None" by (simp add: td_truthy_def)
  have "split_target m as =
      (if ?d \<noteq> None \<or> parse_datetime_spec as \<noteq> None then Inr (None, None, as)
       else if length as < 2 then Inl (Say UsageLong)
       else Inr (None, Some (hd as), tl as))"
    unfolding split_target_def p using assms(1,2) t
    by (simp split: option.splits)
  then have "read_request now m as =
      (if ?d \<noteq> None \<or> parse_datetime_spec as \<noteq> None
       then read_time_and_text now None None as
       else if length as < 2 then Inl (Say UsageLong)
       else read_time_and_text now None (Some (hd as)) (tl as))"
    by (simp add: read_request_def)
  moreover have "parse_duration (hd as) \<noteq> Inr None \<longleftrightarrow> ?d \<noteq> None"
    unfolding p by simp
  ultimately show ?thesis using example_request[OF assms(1)] by simp
qed

theorem target_disambiguation_witness:
  "read_request 63869018400000000 \<lparr>chat_id = 7, message_id = 1, reply_to_message = None\<rparr>
     [''bob'', ''10m'', ''hello''] =
     Inr \<lparr>q_target_user = None, q_target_label = Some ''bob'', q_is_all_target = False,
          q_due_at = 63869019000000000, q_delay = 600000000, q_repeat_interval = None,
          q_text = ''hello''\<rparr> \<and>
   read_request 63869018400000000 \<lparr>chat_id = 7, message_id = 1, reply_to_message = None\<rparr>
     [''10m'', ''hello''] =
     Inr \<lparr>q_target_user = None, q_target_label = None, q_is_all_target = False,
          q_due_at = 63869019000000000, q_delay = 600000000, q_repeat_interval = None,
          q_text = ''hello''\<rparr>"
proof -
  define m where "m = \<lparr>chat_id = 7, message_id = 1, reply_to_message = None\<rparr>"
  have h1: "reply_to_message m = None" by (simp add: m_def)
  have h2: "[''bob'', ''10m'', ''hello''] \<noteq> []" by simp
  have f: "duration_findall ''bob'' = []" by code_simp
  have h3: "\<forall>(v, u)\<in>set (duration_findall (hd [''bob'', ''10m'', ''hello''])). length v \<le> MAX_STR_DIGITS"
    unfolding list.sel f by simp
  have sm: "spec_duration_sum ''bob'' = 0" by code_simp
  have h4: "spec_duration_sum (hd [''bob'', ''10m'', ''hello'']) \<le> 86399999999999"
    unfolding list.sel sm by simp
  have pd: "parse_duration ''bob'' = Inr None" by code_simp
  have dt: "parse_datetime_spec [''bob'', ''10m'', ''hello''] = None" by code_simp
  have rt: "read_time_and_text 63869018400000000 None (Some ''bob'') [''10m'', ''hello''] =
     Inr \<lparr>q_target_user = None, q_target_label = Some ''bob'', q_is_all_target = False,
          q_due_at = 63869019000000000, q_delay = 600000000, q_repeat_interval = None,
          q_text = ''hello''\<rparr>"
    by code_simp
  have mx: "(63869018400000000 :: int) + 600000000 \<le> MAX_DATETIME" by (simp add: MAX_DATETIME_def)
  from target_disambiguation [OF h1 h2 h3 h4, of 63869018400000000]
  have "read_request 63869018400000000 m [''bob'', ''10m'', ''hello''] =
     Inr \<lparr>q_target_user = None, q_target_label = Some ''bob'', q_is_all_target = False,
          q_due_at = 63869019000000000, q_delay = 600000000, q_repeat_interval = None,
          q_text = ''hello''\<rparr> \<and>
   read_request 63869018400000000 m [''10m'', ''hello''] =
     Inr \<lparr>q_target_user = None, q_target_label = None, q_is_all_target = False,
          q_due_at = 63869019000000000, q_delay = 600000000, q_repeat_interval = None,
          q_text = ''hello''\<rparr>"
    using mx unfolding list.sel pd dt rt by simp
  then show ?thesis unfolding m_def .
qed

text \<open>
  Claim C4 as stated fails for a single argument that is neither a duration nor a date:
  \<open>/remind bob\<close> is answered with the usage text by the guard \<open>len(args) < 2\<close>. Had
  \<open>bob\<close> been consumed as the addressee with no argument left for the time, the reply
  would have been that the time was not understood.
\<close>

theorem single_token_usage:
  "let m = \<lparr>chat_id = 7, message_id = 1, reply_to_message = None\<rparr>;
       s1 = fst (remind
          \<lparr>now_dt = 63869018400000000, time_ms = 1000, transport = Some 50\<rparr>
          \<lparr>effective_message = Some m, args = [''bob'']\<rparr>
          \<lparr>job_queue = Some Map.empty, next_handle = 0, chat_data = Map.empty, sent = [],
             deleted = []\<rparr>)
   in parse_duration ''bob'' = Inr None \<and> parse_datetime_spec [''bob''] = None \<and>
      read_request 63869018400000000 m [''bob''] = Inl (Say UsageLong) \<and>
      read_time_and_text 63869018400000000 None (Some ''bob'') [] = Inl (Say BadTime) \<and>
      sent s1 = [Reply 7 UsageLong] \<and> jobs_of s1 7 = []"
  by code_simp

section \<open>The records of a registry\<close>

text \<open>
  \<open>registry_ok\<close> holds of an empty registry and is kept by every handler and by every
  run of a job, so it holds in every state that the bot reaches from an empty registry.
\<close>

lemma set_alist_delete: "set (AList.delete k al) \<subseteq> set al"
  by (induction al) auto

lemma set_alist_update: "set (AList.update k v al) \<subseteq> insert (k, v) (set al)"
  by (induction al) auto

lemma registry_ok_mono:
  assumes "registry_ok s c" and "set (jobs_of s' c) \<subseteq> set (jobs_of s c)"
    and "next_handle s \<le> next_handle s'"
  shows "registry_ok s' c"
  using assms unfolding registry_ok_def by fastforce

lemma registry_ok_initial: "chat_data s = Map.empty \<Longrightarrow> registry_ok s c"
  by (simp add: registry_ok_def jobs_of_def)

lemma reply_only_fields:
  "chat_data (fst (reply_only e m b s)) = chat_data s \<and>
   next_handle (fst (reply_only e m b s)) = next_handle s"
  by (simp add: reply_only_def split: option.splits)

lemma reply_and_cleanup_next:
  "next_handle s \<le> next_handle (fst (reply_and_cleanup e m b k s))"
  by (simp add: reply_and_cleanup_def arm_def Let_def split: option.splits)

lemma jobs_of_mutate: "set (jobs_of (mutate_jobs c f s) c') \<subseteq> set (jobs_of s c') \<union> (if c' = c then set (f (jobs_of s c)) else {})"
  by (auto simp: jobs_of_def mutate_jobs_def split: option.splits if_splits)

lemma registry_ok_list: "registry_ok s c \<Longrightarrow> registry_ok (fst (list_reminders e u s)) c"
proof -
  assume ok: "registry_ok s c"
  show ?thesis
  proof (cases "effective_message u")
    case None
    with ok show ?thesis by (simp add: list_reminders_def)
  next
    case (Some m)
    let ?s' = "fst (list_reminders e u s)"
    have "jobs_of ?s' c = jobs_of s c \<and> next_handle s \<le> next_handle ?s'"
      using Some reply_and_cleanup_next[of s e m]
      by (simp add: list_reminders_def Let_def jobs_of_def reply_only_fields reply_and_cleanup_chat_data)
    with ok show ?thesis by (intro registry_ok_mono[OF ok]) simp_all
  qed
qed

lemma registry_ok_cancel: "registry_ok s c \<Longrightarrow> registry_ok (fst (cancel e u s)) c"
proof -
  assume ok: "registry_ok s c"
  have one: "registry_ok (fst (cancel_one e m a s)) c" for m a
  proof -
    let ?s1 = "mutate_jobs (chat_id m) (AList.delete a) s"
    have sub: "set (jobs_of ?s1 c) \<subseteq> set (jobs_of s c)"
      using jobs_of_mutate[of "chat_id m" "AList.delete a" s c] set_alist_delete[of a "jobs_of s c"]
      by (auto split: if_splits)
    have nh: "next_handle ?s1 = next_handle s" by (rule mutate_next_handle)
    show ?thesis
    proof (cases "map_of (jobs_of s (chat_id m)) a")
      case None
      then have "cancel_one e m a s = reply_only e m NotFound ?s1"
        by (simp add: cancel_one_def Let_def)
      then show ?thesis
        using sub nh by (intro registry_ok_mono[OF ok]) (simp_all add: jobs_of_def reply_only_fields)
    next
      case (Some info)
      then have "cancel_one e m a s = reply_and_cleanup e m
          (Cancelled (html_escape a) (target_display (r_target info))) 10
          (schedule_removal (r_job info) ?s1)"
        by (simp add: cancel_one_def Let_def)
      moreover have "jobs_of (schedule_removal (r_job info) ?s1) c = jobs_of ?s1 c"
        by (simp add: jobs_of_def schedule_removal_def)
      moreover have "next_handle (schedule_removal (r_job info) ?s1) = next_handle s"
        by (simp add: schedule_removal_def nh)
      ultimately show ?thesis
        using sub reply_and_cleanup_next[of "schedule_removal (r_job info) ?s1" e m]
        by (intro registry_ok_mono[OF ok]) (simp_all add: jobs_of_reply_and_cleanup)
    qed
  qed
  have all: "registry_ok (fst (cancel_all e m s)) c" for m
  proof (cases "jobs_of s (chat_id m) = []")
    case True
    then show ?thesis
      by (intro registry_ok_mono[OF ok]) (simp_all add: cancel_all_def Let_def jobs_of_def reply_only_fields)
  next
    case False
    let ?s1 = "fold (\<lambda>(jid, d). schedule_removal (r_job d)) (jobs_of s (chat_id m)) s"
    let ?s2 = "mutate_jobs (chat_id m) (\<lambda>js. []) ?s1"
    from False have c: "cancel_all e m s = reply_and_cleanup e m AllCancelled 10 ?s2"
      by (simp add: cancel_all_def Let_def)
    have j1: "jobs_of ?s1 c = jobs_of s c" by (simp add: jobs_of_def fold_removal_fields)
    have sub: "set (jobs_of ?s2 c) \<subseteq> set (jobs_of s c)"
      using jobs_of_mutate[of "chat_id m" "\<lambda>js. []" ?s1 c] j1 by (auto split: if_splits)
    have nh: "next_handle ?s2 = next_handle s"
      by (simp add: mutate_next_handle fold_removal_fields)
    show ?thesis
      unfolding c using sub nh reply_and_cleanup_next[of ?s2 e m]
      by (intro registry_ok_mono[OF ok]) (simp_all add: jobs_of_reply_and_cleanup)
  qed
  show ?thesis
  proof (cases "effective_message u")
    case None
    with ok show ?thesis by (simp add: cancel_def)
  next
    case (Some m)
    have r: "registry_ok (fst (reply_only e m b s)) c" for b
      by (intro registry_ok_mono[OF ok]) (simp_all add: jobs_of_def reply_only_fields)
    have rc: "registry_ok (fst (reply_and_cleanup e m b k s)) c" for b k
      using reply_and_cleanup_next[of s e m]
      by (intro registry_ok_mono[OF ok]) (simp_all add: jobs_of_reply_and_cleanup)
    show ?thesis
      using Some one all r rc by (simp add: cancel_def Let_def)
  qed
qed

lemma registry_ok_run_job: "registry_ok s c \<Longrightarrow> registry_ok (fst (run_job e h s)) c"
proof -
  assume ok: "registry_ok s c"
  have del: "registry_ok (fst (delete_message_job e k mid s)) c" for k mid
    by (intro registry_ok_mono[OF ok])
       (simp_all add: delete_message_job_def jobs_of_def split: option.splits)
  have snd: "registry_ok (fst (send_reminder e h name d s)) c" for name d
  proof (cases "transport e")
    case None
    with ok show ?thesis by (simp add: send_reminder_def Let_def)
  next
    case (Some mid)
    let ?s1 = "s\<lparr>sent := sent s @ [Notification (jd_chat_id d)
        (Reminder (case jd_mention d of None \<Rightarrow> None | Some m \<Rightarrow> if m = [] then None else Some m)
           (html_escape (jd_text d))) (jd_reply_to d)]\<rparr>"
    have j1: "jobs_of ?s1 c = jobs_of s c" by (simp add: jobs_of_def)
    have sub: "set (jobs_of (mutate_jobs (jd_chat_id d) (AList.delete name) ?s1) c) \<subseteq> set (jobs_of s c)"
      using jobs_of_mutate[of "jd_chat_id d" "AList.delete name" ?s1 c]
        set_alist_delete[of name "jobs_of ?s1 c"] j1
      by (auto split: if_splits)
    show ?thesis
      using Some sub
      by (intro registry_ok_mono[OF ok])
         (auto simp: send_reminder_def Let_def jobs_of_def mutate_next_handle split: sum.splits)
  qed
  show ?thesis
    using ok del snd by (simp add: run_job_def split: option.splits payload.splits)
qed

lemma registry_ok_schedule:
  assumes "registry_ok s c"
  shows "registry_ok (fst (schedule e m rq s)) c"
proof -
  let ?s' = "fst (schedule e m rq s)"
  let ?rec = "\<lparr>r_job = next_handle s, r_target = mention_of rq, r_text = q_text rq,
             r_due_at = q_due_at rq, r_repeat_interval = q_repeat_interval rq\<rparr>"
  have nh: "next_handle s < next_handle ?s'"
    by (simp add: schedule_def Let_def arm_def reply_and_cleanup_def split: prod.splits option.splits)
  have j: "jobs_of ?s' c =
      (if c = chat_id m then AList.update (job_id_of (chat_id m) (time_ms e)) ?rec (jobs_of s (chat_id m))
       else jobs_of s c)"
    by (simp add: jobs_of_def[of ?s'] schedule_registry) (simp add: jobs_of_def)
  show ?thesis
  proof (cases "c = chat_id m")
    case False
    with j nh show ?thesis by (intro registry_ok_mono[OF assms]) simp_all
  next
    case True
    have "(\<exists>ms. jid = job_id_of c ms) \<and> r_job r < next_handle ?s'"
      if "(jid, r) \<in> set (jobs_of ?s' c)" for jid r
    proof -
      from that j True set_alist_update[of "job_id_of c (time_ms e)" ?rec "jobs_of s c"]
      have "(jid, r) = (job_id_of c (time_ms e), ?rec) \<or> (jid, r) \<in> set (jobs_of s c)" by auto
      then show ?thesis
      proof
        assume "(jid, r) = (job_id_of c (time_ms e), ?rec)"
        with nh show ?thesis by auto
      next
        assume "(jid, r) \<in> set (jobs_of s c)"
        with assms nh show ?thesis unfolding registry_ok_def by fastforce
      qed
    qed
    then show ?thesis unfolding registry_ok_def by auto
  qed
qed

lemma registry_ok_remind: "registry_ok s c \<Longrightarrow> registry_ok (fst (remind e u s)) c"
proof -
  assume ok: "registry_ok s c"
  show ?thesis
  proof (cases "effective_message u")
    case None
    with ok show ?thesis by (simp add: remind_def)
  next
    case (Some m)
    let ?s1 = "case job_queue s of None \<Rightarrow> s
               | Some q \<Rightarrow> snd (arm (cleanup_job (chat_id m) (message_id m) 10) s)"
    have ok1: "registry_ok ?s1 c"
      by (intro registry_ok_mono[OF ok]) (simp_all add: jobs_of_def arm_def split: option.splits)
    have r: "registry_ok (fst (reply_only e m b ?s1)) c" for b
      by (intro registry_ok_mono[OF ok1]) (simp_all add: jobs_of_def reply_only_fields)
    show ?thesis
      using Some ok1 r registry_ok_schedule[OF ok1]
      by (simp add: remind_def Let_def split: sum.splits stop.splits option.splits)
  qed
qed

lemma registry_ok_single:
  assumes "registry_ok s c" and "jobs_of s c = [(jid, r)]"
  shows "(\<exists>ms. jid = job_id_of c ms) \<and> r_job r < next_handle s"
  using assms by (simp add: registry_ok_def)

end
